theory Spec2Isabelle
  imports Main "HOL-Library.AList"
begin

section \<open>Piecewise constant scalar space (src/lib/space/piecewise_constant_scalar_space.cpp)\<close>

subsection \<open>Data model\<close>

text \<open>
  The grid layer is not part of the sources at hand; what the space reads from it is taken
  as data.  An element (\<open>Entity<0>\<close>) is seen through its geometry type and through the
  index the view's element mapper gives it.  A grid view is the sequence of its elements
  in the order of \<open>entityIterator<0>()\<close> together with the number \<open>entityCount(0)\<close>.
  A grid segment is its membership test \<open>contains(codim, index)\<close>.
\<close>

record GeometryType =
  dim :: nat
  isTriangle :: bool

record Entity =
  entity_type :: GeometryType
  mapper_entityIndex :: nat

record GridView =
  entityCount0 :: nat
  entities0 :: "Entity list"

record GridSegment =
  contains :: "nat \<Rightarrow> nat \<Rightarrow> bool"

type_synonym ElementVariant = int
type_synonym GlobalDofIndex = int

record LocalDof =
  entityIndex :: nat
  dofIndex :: nat

record PiecewiseConstantScalarSpace =
  m_view :: GridView
  m_local2globalDofs :: "GlobalDofIndex list list"
  m_global2localDofs :: "LocalDof list list"

datatype SpaceError =
  InvalidVariant
  | VectorIndexOutOfRange

subsection \<open>Element variants\<close>

definition elementVariant :: "PiecewiseConstantScalarSpace \<Rightarrow> Entity \<Rightarrow> ElementVariant" where
  "elementVariant s element =
     (let type = entity_type element in
      if dim type = 1 then 2
      else if isTriangle type then 3
      else 4)"

text \<open>
  \<open>setElementVariant\<close> either throws or returns; the space it was called on is returned
  next to the outcome (\<open>None\<close> is a normal return).
\<close>

definition setElementVariant ::
  "PiecewiseConstantScalarSpace \<Rightarrow> Entity \<Rightarrow> ElementVariant
     \<Rightarrow> SpaceError option \<times> PiecewiseConstantScalarSpace" where
  "setElementVariant s element variant =
     (if variant \<noteq> elementVariant s element then (Some InvalidVariant, s) else (None, s))"

subsection \<open>Assignment of degrees of freedom\<close>

text \<open>
  The loop of \<open>assignDofsImpl\<close>.  Its state is the counter \<open>globalDofCount_\<close>
  (written \<open>globalDofCount'\<close>) and the two member vectors.  The one-element vectors
  \<open>localDofs\<close> and \<open>globalDofs\<close> are written in full before each use, so their
  value at the point of use is written here directly.  The store
  \<open>m_local2globalDofs[index] = globalDofs\<close> is unchecked in the source; an index
  beyond the vector's size is reported as \<open>VectorIndexOutOfRange\<close>.
\<close>

fun assignDofs_loop ::
  "GridSegment \<Rightarrow> Entity list \<Rightarrow> int \<times> GlobalDofIndex list list \<times> LocalDof list list
     \<Rightarrow> SpaceError + (int \<times> GlobalDofIndex list list \<times> LocalDof list list)" where
  "assignDofs_loop segment [] st = Inr st"
| "assignDofs_loop segment (e # es) (globalDofCount', l2g, g2l) =
     (let index = mapper_entityIndex e in
      if contains segment 0 index then
        (if index < length l2g
         then assignDofs_loop segment es
                (globalDofCount' + 1,
                 l2g[index := [globalDofCount']],
                 g2l @ [[\<lparr>entityIndex = index, dofIndex = 0\<rparr>]])
         else Inl VectorIndexOutOfRange)
      else
        (if index < length l2g
         then assignDofs_loop segment es (globalDofCount', l2g[index := [- 1]], g2l)
         else Inl VectorIndexOutOfRange))"

definition assignDofsImpl ::
  "PiecewiseConstantScalarSpace \<Rightarrow> GridSegment \<Rightarrow> SpaceError + PiecewiseConstantScalarSpace" where
  "assignDofsImpl s segment =
     (let elementCount = entityCount0 (m_view s) in
      case assignDofs_loop segment (entities0 (m_view s)) (0, replicate elementCount [], []) of
        Inl err \<Rightarrow> Inl err
      | Inr (cnt, l2g, g2l) \<Rightarrow>
          Inr (s\<lparr>m_local2globalDofs := l2g, m_global2localDofs := g2l\<rparr>))"

text \<open>The constructor taking a grid (seen through its leaf view) and a segment.\<close>

definition PiecewiseConstantScalarSpace_ctor ::
  "GridView \<Rightarrow> GridSegment \<Rightarrow> SpaceError + PiecewiseConstantScalarSpace" where
  "PiecewiseConstantScalarSpace_ctor view segment =
     assignDofsImpl \<lparr>m_view = view, m_local2globalDofs = [], m_global2localDofs = []\<rparr> segment"

definition globalDofCount :: "PiecewiseConstantScalarSpace \<Rightarrow> nat" where
  "globalDofCount s = length (m_global2localDofs s)"

text \<open>
  What the element mapper of a grid view guarantees: the indices of the elements are
  pairwise different and lie below \<open>entityCount(0)\<close>, which is the number of elements.
\<close>

definition view_ok :: "GridView \<Rightarrow> bool" where
  "view_ok v \<longleftrightarrow>
     length (entities0 v) = entityCount0 v \<and>
     distinct (map mapper_entityIndex (entities0 v)) \<and>
     (\<forall>e \<in> set (entities0 v). mapper_entityIndex e < entityCount0 v)"

text \<open>The elements of the view that the segment contains, in iteration order.\<close>

definition inSegment :: "GridSegment \<Rightarrow> Entity \<Rightarrow> bool" where
  "inSegment segment e = contains segment 0 (mapper_entityIndex e)"

text \<open>A view of three elements, visited in the order of the indices 2, 0, 1, and the
  segment of the elements whose index is not 0.\<close>

definition sample_view :: GridView where
  "sample_view =
     \<lparr>entityCount0 = 3,
      entities0 =
        [\<lparr>entity_type = \<lparr>dim = 2, isTriangle = True\<rparr>, mapper_entityIndex = 2\<rparr>,
         \<lparr>entity_type = \<lparr>dim = 2, isTriangle = True\<rparr>, mapper_entityIndex = 0\<rparr>,
         \<lparr>entity_type = \<lparr>dim = 2, isTriangle = False\<rparr>, mapper_entityIndex = 1\<rparr>]\<rparr>"

definition sample_segment :: GridSegment where
  "sample_segment = \<lparr>contains = (\<lambda>codim index. index \<noteq> 0)\<rparr>"

section \<open>Hierarchical matrix (src/lib/hmat/hmatrix_impl.hpp)\<close>

subsection \<open>Dense matrices\<close>

text \<open>
  \<open>Matrix<ValueType>\<close> is a dense matrix with a run-time number of rows and columns; its
  declaration is not part of the sources at hand.  It is modelled by its shape and its
  rows, \<open>coeffs m ! i ! j\<close> being the coefficient \<open>m(i, j)\<close>.  \<open>ValueType\<close> is a
  parameter of the code; here it is any commutative ring, with exact arithmetic.
  The coefficients lie in memory column by column (the default of the matrix library
  the source names in \<open>Eigen::Map\<close>): the coefficient \<open>(i, j)\<close> of a matrix with
  \<open>n\<close> rows is the cell \<open>i + j * n\<close>, counted from the matrix's first coefficient.
\<close>

record 'a Matrix =
  mat_rows :: nat
  mat_cols :: nat
  coeffs :: "'a list list"

definition Matrix_ok :: "'a Matrix \<Rightarrow> bool" where
  "Matrix_ok m \<longleftrightarrow>
     length (coeffs m) = mat_rows m \<and> (\<forall>r \<in> set (coeffs m). length r = mat_cols m)"

definition coeff :: "'a Matrix \<Rightarrow> nat \<Rightarrow> nat \<Rightarrow> 'a" where
  "coeff m i j = coeffs m ! i ! j"

definition set_coeff :: "'a Matrix \<Rightarrow> nat \<Rightarrow> nat \<Rightarrow> 'a \<Rightarrow> 'a Matrix" where
  "set_coeff m i j v = m\<lparr>coeffs := (coeffs m)[i := (coeffs m ! i)[j := v]]\<rparr>"

definition Matrix_of :: "nat \<Rightarrow> nat \<Rightarrow> (nat \<Rightarrow> nat \<Rightarrow> 'a) \<Rightarrow> 'a Matrix" where
  "Matrix_of r c f =
     \<lparr>mat_rows = r, mat_cols = c, coeffs = map (\<lambda>i. map (\<lambda>j. f i j) [0 ..< c]) [0 ..< r]\<rparr>"

text \<open>
  \<open>Matrix<ValueType> m(r, c)\<close> allocates an \<open>r\<close> by \<open>c\<close> matrix.  The source gives its
  coefficients no value before the permutation loops write them; the model starts them
  at zero.  When the index map is a bijection of the rows, the loops write every
  coefficient.
\<close>

definition Matrix_new :: "nat \<Rightarrow> nat \<Rightarrow> ('a::comm_ring_1) Matrix" where
  "Matrix_new r c = Matrix_of r c (\<lambda>i j. 0)"

text \<open>\<open>Y.zeros()\<close> keeps the shape and reads no coefficient; \<open>Y *= beta\<close> scales each.\<close>

definition zeros :: "('a::comm_ring_1) Matrix \<Rightarrow> 'a Matrix" where
  "zeros m = Matrix_of (mat_rows m) (mat_cols m) (\<lambda>i j. 0)"

definition scale :: "('a::comm_ring_1) Matrix \<Rightarrow> 'a \<Rightarrow> 'a Matrix" where
  "scale m beta = Matrix_of (mat_rows m) (mat_cols m) (\<lambda>i j. coeff m i j * beta)"

definition transpose_mat :: "'a Matrix \<Rightarrow> 'a Matrix" where
  "transpose_mat m = Matrix_of (mat_cols m) (mat_rows m) (\<lambda>i j. coeff m j i)"

definition matmul :: "('a::comm_ring_1) Matrix \<Rightarrow> 'a Matrix \<Rightarrow> 'a Matrix" where
  "matmul a b =
     Matrix_of (mat_rows a) (mat_cols b)
       (\<lambda>i j. sum_list (map (\<lambda>k. coeff a i k * coeff b k j) [0 ..< mat_cols a]))"

datatype HMatError =
  WrongNumberOfRows
  | IndexOutOfRange
  | BlockShapeMismatch
  | CompressionFailure

text \<open>The coefficient in the cell \<open>c\<close> of a matrix, and the cell of a coefficient.\<close>

definition cell :: "'a Matrix \<Rightarrow> nat \<Rightarrow> 'a" where
  "cell m c = coeff m (c mod mat_rows m) (c div mat_rows m)"

definition cell_of :: "'a Matrix \<Rightarrow> nat \<Rightarrow> nat \<Rightarrow> nat" where
  "cell_of m i j = i + j * mat_rows m"

text \<open>
  \<open>Eigen::Map<Matrix>(m.block(start, 0, stop - start, m.cols()).data(), stop - start,
  m.cols())\<close> for an index range \<open>[start, stop)\<close>.  The block is the rows of the range,
  all columns; \<open>data()\<close> is the address of its first coefficient, the cell \<open>start\<close> of
  \<open>m\<close>; the map is a matrix of \<open>stop - start\<close> rows and \<open>m.cols()\<close> columns laid
  over the cells from there on, column by column with nothing between its columns, so
  its coefficient \<open>(i, j)\<close> is the cell \<open>start + i + j * (stop - start)\<close> of \<open>m\<close>.  A
  range that does not lie inside the matrix is an error (the subtraction
  \<open>stop - start\<close> of the source is on \<open>std::size_t\<close>).
\<close>

definition Map_block :: "'a Matrix \<Rightarrow> nat \<times> nat \<Rightarrow> HMatError + 'a Matrix" where
  "Map_block m indexRange =
     (if fst indexRange \<le> snd indexRange \<and> snd indexRange \<le> mat_rows m
      then Inr (Matrix_of (snd indexRange - fst indexRange) (mat_cols m)
                  (\<lambda>i j. cell m (fst indexRange + i
                                  + j * (snd indexRange - fst indexRange))))
      else Inl IndexOutOfRange)"

text \<open>
  The map is a view: what is written to it is written to the cells of the matrix it
  lies over.  \<open>write_Map_block m start b\<close> is \<open>m\<close> after the cells from \<open>start\<close> on
  were overwritten by the coefficients of \<open>b\<close>, column by column.
\<close>

definition write_Map_block :: "'a Matrix \<Rightarrow> nat \<Rightarrow> 'a Matrix \<Rightarrow> 'a Matrix" where
  "write_Map_block m start b =
     Matrix_of (mat_rows m) (mat_cols m)
       (\<lambda>i j. let c = cell_of m i j in
              if start \<le> c \<and> c < start + mat_rows b * mat_cols b
              then coeff b ((c - start) mod mat_rows b) ((c - start) div mat_rows b)
              else coeff m i j)"

subsection \<open>Cluster trees and block cluster trees\<close>

text \<open>
  The cluster tree and the block cluster tree are not part of the sources at hand; what
  the hierarchical matrix reads from them is taken as data: the number of degrees of
  freedom and the two index maps of a cluster tree, and for a block cluster tree its two
  cluster trees and its leaves.  A leaf carries the index ranges of its row and its
  column cluster tree node; \<open>nodeId\<close> stands for the address the shared pointer to the
  node holds, which is what the map \<open>m_hMatrixData\<close> compares.
\<close>

record ClusterTree =
  numberOfDofs :: nat
  mapOriginalDofToHMatDof :: "nat \<Rightarrow> nat"
  mapHMatDofToOriginalDof :: "nat \<Rightarrow> nat"

record BlockClusterTreeNode =
  nodeId :: nat
  rowIndexRange :: "nat \<times> nat"
  columnIndexRange :: "nat \<times> nat"
  admissible :: bool

record BlockClusterTree =
  rowClusterTree :: ClusterTree
  columnClusterTree :: ClusterTree
  leafNodes :: "BlockClusterTreeNode list"

datatype RowColSelector = ROW | COL

datatype TransposeMode = NOTRANS | TRANS

subsection \<open>Block data\<close>

text \<open>
  Modelled from the spec: the block data classes (\<open>hmatrix_data.hpp\<close>,
  \<open>hmatrix_dense_data.hpp\<close>) are missing.  Block data is dense (the matrix of the
  block) or compressed (two thin matrices whose product stands for the block), and
  \<open>apply(xBlock, yBlock, transposeMode, alpha, beta)\<close> computes
  \<open>yBlock := alpha * op(block) * xBlock + beta * yBlock\<close>, \<open>op\<close> being the identity or the
  transpose; with \<open>beta = 0\<close> the old \<open>yBlock\<close> is not read, with \<open>alpha = 0\<close>
  \<open>xBlock\<close> is not read.  Operands whose shapes do not fit are an error.
\<close>

datatype 'a HMatrixData =
  DenseData "'a Matrix"
  | LowRankData "'a Matrix" "'a Matrix"

fun HMatrixData_block :: "('a::comm_ring_1) HMatrixData \<Rightarrow> 'a Matrix" where
  "HMatrixData_block (DenseData a) = a"
| "HMatrixData_block (LowRankData a b) = matmul a b"

definition op_mat :: "TransposeMode \<Rightarrow> 'a Matrix \<Rightarrow> 'a Matrix" where
  "op_mat transMode a = (if transMode = NOTRANS then a else transpose_mat a)"

definition HMatrixData_apply ::
  "('a::comm_ring_1) HMatrixData \<Rightarrow> 'a Matrix \<Rightarrow> 'a Matrix \<Rightarrow> TransposeMode \<Rightarrow> 'a \<Rightarrow> 'a
     \<Rightarrow> HMatError + 'a Matrix" where
  "HMatrixData_apply d xBlock yBlock transMode alpha beta =
     (let a = op_mat transMode (HMatrixData_block d) in
      if mat_cols a = mat_rows xBlock \<and> mat_rows a = mat_rows yBlock
           \<and> mat_cols xBlock = mat_cols yBlock
      then
        (let y0 = (if beta = 0 then zeros yBlock else scale yBlock beta) in
         if alpha = 0 then Inr y0
         else
           (let ax = matmul a xBlock in
            Inr (Matrix_of (mat_rows y0) (mat_cols y0)
                   (\<lambda>i j. alpha * coeff ax i j + coeff y0 i j))))
      else Inl BlockShapeMismatch)"

subsection \<open>The hierarchical matrix\<close>

text \<open>
  \<open>m_hMatrixData\<close> is an unordered map from leaf to block data.  It is modelled as an
  association list: \<open>m_hMatrixData[node] = nodeData\<close> overwrites the entry of \<open>node\<close> or
  adds one, and \<open>std::for_each\<close> visits the entries in the order of the list.
\<close>

record 'a HMatrix =
  m_blockClusterTree :: BlockClusterTree
  m_hMatrixData :: "(BlockClusterTreeNode \<times> 'a HMatrixData) list"

text \<open>A compressor is what \<open>compressBlock\<close> does to a leaf: it fails or gives block data.\<close>

type_synonym 'a HMatrixCompressor = "BlockClusterTreeNode \<Rightarrow> HMatError + 'a HMatrixData"

definition HMatrix_ctor :: "BlockClusterTree \<Rightarrow> 'a HMatrix" where
  "HMatrix_ctor blockClusterTree =
     \<lparr>m_blockClusterTree = blockClusterTree, m_hMatrixData = []\<rparr>"

text \<open>
  Modelled from the spec: \<open>BlockClusterTree::rows()\<close> and \<open>columns()\<close> are missing;
  \<open>rows()\<close> and \<open>columns()\<close> of the matrix come from \<open>numberOfDofs()\<close> of the row
  and of the column cluster tree.
\<close>

definition HMatrix_rows :: "'a HMatrix \<Rightarrow> nat" where
  "HMatrix_rows hm = numberOfDofs (rowClusterTree (m_blockClusterTree hm))"

definition HMatrix_columns :: "'a HMatrix \<Rightarrow> nat" where
  "HMatrix_columns hm = numberOfDofs (columnClusterTree (m_blockClusterTree hm))"

definition reset :: "'a HMatrix \<Rightarrow> 'a HMatrix" where
  "reset hm = hm\<lparr>m_hMatrixData := []\<rparr>"

text \<open>
  The loop of \<open>initialize\<close>.  A compressor that throws ends it; the exception leaves the
  function with the entries stored so far still in the map.
\<close>

fun initialize_loop ::
  "'a HMatrixCompressor \<Rightarrow> BlockClusterTreeNode list \<Rightarrow> 'a HMatrix
     \<Rightarrow> HMatError option \<times> 'a HMatrix" where
  "initialize_loop hMatrixCompressor [] hm = (None, hm)"
| "initialize_loop hMatrixCompressor (node # nodes) hm =
     (case hMatrixCompressor node of
        Inl err \<Rightarrow> (Some err, hm)
      | Inr nodeData \<Rightarrow>
          initialize_loop hMatrixCompressor nodes
            (hm\<lparr>m_hMatrixData := AList.update node nodeData (m_hMatrixData hm)\<rparr>))"

definition initialize ::
  "'a HMatrix \<Rightarrow> 'a HMatrixCompressor \<Rightarrow> HMatError option \<times> 'a HMatrix" where
  "initialize hm hMatrixCompressor =
     initialize_loop hMatrixCompressor (leafNodes (m_blockClusterTree hm)) (reset hm)"

text \<open>
  The constructor taking a compressor delegates to the one above and calls
  \<open>initialize\<close>.  When \<open>initialize\<close> throws, so does the constructor, and there is no
  object.
\<close>

definition HMatrix_ctor_compressor ::
  "BlockClusterTree \<Rightarrow> 'a HMatrixCompressor \<Rightarrow> HMatError + 'a HMatrix" where
  "HMatrix_ctor_compressor blockClusterTree hMatrixCompressor =
     (case initialize (HMatrix_ctor blockClusterTree) hMatrixCompressor of
        (Some err, hm) \<Rightarrow> Inl err
      | (None, hm) \<Rightarrow> Inr hm)"

definition isInitialized :: "'a HMatrix \<Rightarrow> bool" where
  "isInitialized hm \<longleftrightarrow> \<not> (m_hMatrixData hm = [])"

subsection \<open>Permutation between the two orderings\<close>

definition clusterTreeOf :: "'a HMatrix \<Rightarrow> RowColSelector \<Rightarrow> ClusterTree" where
  "clusterTreeOf hm rowOrColumn =
     (if rowOrColumn = ROW then rowClusterTree (m_blockClusterTree hm)
      else columnClusterTree (m_blockClusterTree hm))"

text \<open>
  The inner loop \<open>for j: dst(p, j) = mat(i, j)\<close> and the outer loop over the rows
  \<open>i\<close> with \<open>p = index i\<close>.  The store is unchecked in the source; a row \<open>p\<close> outside
  the matrix is reported as \<open>IndexOutOfRange\<close> (it is reached only when there is a
  column to copy).
\<close>

definition copy_row :: "'a Matrix \<Rightarrow> nat \<Rightarrow> 'a Matrix \<Rightarrow> nat \<Rightarrow> 'a Matrix" where
  "copy_row mat i dst p =
     fold (\<lambda>j d. set_coeff d p j (coeff mat i j)) [0 ..< mat_cols mat] dst"

fun permute_rows ::
  "(nat \<Rightarrow> nat) \<Rightarrow> 'a Matrix \<Rightarrow> nat list \<Rightarrow> 'a Matrix \<Rightarrow> HMatError + 'a Matrix" where
  "permute_rows index mat [] dst = Inr dst"
| "permute_rows index mat (i # rest) dst =
     (if 0 < mat_cols mat \<and> \<not> index i < mat_rows dst then Inl IndexOutOfRange
      else permute_rows index mat rest (copy_row mat i dst (index i)))"

definition permuteMatToHMatDofs ::
  "('a::comm_ring_1) HMatrix \<Rightarrow> 'a Matrix \<Rightarrow> RowColSelector \<Rightarrow> HMatError + 'a Matrix" where
  "permuteMatToHMatDofs hm mat rowOrColumn =
     (let permutedDofs = Matrix_new (mat_rows mat) (mat_cols mat);
          clusterTree = clusterTreeOf hm rowOrColumn in
      if numberOfDofs clusterTree \<noteq> mat_rows mat then Inl WrongNumberOfRows
      else permute_rows (mapOriginalDofToHMatDof clusterTree) mat [0 ..< mat_rows mat]
             permutedDofs)"

definition permuteMatToOriginalDofs ::
  "('a::comm_ring_1) HMatrix \<Rightarrow> 'a Matrix \<Rightarrow> RowColSelector \<Rightarrow> HMatError + 'a Matrix" where
  "permuteMatToOriginalDofs hm mat rowOrColumn =
     (let originalDofs = Matrix_new (mat_rows mat) (mat_cols mat);
          clusterTree = clusterTreeOf hm rowOrColumn in
      if numberOfDofs clusterTree \<noteq> mat_rows mat then Inl WrongNumberOfRows
      else permute_rows (mapHMatDofToOriginalDof clusterTree) mat [0 ..< mat_rows mat]
             originalDofs)"

subsection \<open>Application\<close>

text \<open>
  The body of the \<open>std::for_each\<close> over the entries of \<open>m_hMatrixData\<close>.  The lambda of
  the source names its operands \<open>xData\<close> and \<open>yData\<close>; they are read as the two
  matrices it captures, \<open>xPermuted\<close> and \<open>yPermuted\<close>.  Each operand of the block
  data is the \<open>Eigen::Map\<close> laid over the cells that start at the first coefficient of
  the range's row block.  The block data is applied with the caller's \<open>alpha\<close> and
  with \<open>beta = 1\<close>, and writes through the map into \<open>yPermuted\<close>.
\<close>

fun apply_leaves ::
  "TransposeMode \<Rightarrow> ('a::comm_ring_1) \<Rightarrow> 'a Matrix
     \<Rightarrow> (BlockClusterTreeNode \<times> 'a HMatrixData) list \<Rightarrow> 'a Matrix
     \<Rightarrow> HMatError + 'a Matrix" where
  "apply_leaves transMode alpha xPermuted [] yPermuted = Inr yPermuted"
| "apply_leaves transMode alpha xPermuted (elem # rest) yPermuted =
     (let inputRange = (if transMode = NOTRANS then columnIndexRange (fst elem)
                        else rowIndexRange (fst elem));
          outputRange = (if transMode = NOTRANS then rowIndexRange (fst elem)
                         else columnIndexRange (fst elem))
      in
        case Map_block xPermuted inputRange of
          Inl err \<Rightarrow> Inl err
        | Inr xDataBlock \<Rightarrow>
            (case Map_block yPermuted outputRange of
               Inl err \<Rightarrow> Inl err
             | Inr yDataBlock \<Rightarrow>
                 (case HMatrixData_apply (snd elem) xDataBlock yDataBlock transMode alpha 1 of
                    Inl err \<Rightarrow> Inl err
                  | Inr yNew \<Rightarrow>
                      apply_leaves transMode alpha xPermuted rest
                        (write_Map_block yPermuted (fst outputRange) yNew))))"

text \<open>
  \<open>HMatrix::apply\<close> returns nothing and writes \<open>Y\<close>; the model returns the outcome
  (\<open>None\<close> for a normal return, the error for an exception) and \<open>Y\<close> as the call
  leaves it.  An
  exception is raised after \<open>Y\<close> was scaled and before it is assigned, so it leaves the
  scaled \<open>Y\<close>.
\<close>

definition HMatrix_apply ::
  "('a::comm_ring_1) HMatrix \<Rightarrow> 'a Matrix \<Rightarrow> 'a Matrix \<Rightarrow> TransposeMode \<Rightarrow> 'a \<Rightarrow> 'a
     \<Rightarrow> HMatError option \<times> 'a Matrix" where
  "HMatrix_apply hm X Y transMode alpha beta =
     (let Y1 = (if beta = 0 then zeros Y else scale Y beta) in
      case (if transMode = NOTRANS then permuteMatToHMatDofs hm X COL
            else permuteMatToHMatDofs hm X ROW) of
        Inl err \<Rightarrow> (Some err, Y1)
      | Inr xPermuted \<Rightarrow>
          (case (if transMode = NOTRANS then permuteMatToHMatDofs hm Y1 ROW
                 else permuteMatToHMatDofs hm Y1 COL) of
             Inl err \<Rightarrow> (Some err, Y1)
           | Inr yPermuted \<Rightarrow>
               (case apply_leaves transMode alpha xPermuted (m_hMatrixData hm) yPermuted of
                  Inl err \<Rightarrow> (Some err, Y1)
                | Inr yAccumulated \<Rightarrow>
                    (case permuteMatToOriginalDofs hm yAccumulated ROW of
                       Inl err \<Rightarrow> (Some err, Y1)
                     | Inr Ynew \<Rightarrow> (None, Ynew)))))"

subsection \<open>Well-formed trees and exact dense blocks\<close>

text \<open>
  The index maps of a cluster tree are total on \<open>[0, numberOfDofs())\<close> and inverse to
  each other there.
\<close>

definition ClusterTree_ok :: "ClusterTree \<Rightarrow> bool" where
  "ClusterTree_ok ct \<longleftrightarrow>
     (\<forall>i < numberOfDofs ct.
        mapOriginalDofToHMatDof ct i < numberOfDofs ct \<and>
        mapHMatDofToOriginalDof ct (mapOriginalDofToHMatDof ct i) = i) \<and>
     (\<forall>j < numberOfDofs ct.
        mapHMatDofToOriginalDof ct j < numberOfDofs ct \<and>
        mapOriginalDofToHMatDof ct (mapHMatDofToOriginalDof ct j) = j)"

text \<open>
  A leaf covers the positions of its row range times its column range.  In a
  well-formed block cluster tree both cluster trees are well-formed, the leaves are
  pairwise different, their ranges lie inside the index sets, and every position of the
  rows times columns rectangle is covered by exactly one leaf.
\<close>

definition covers :: "BlockClusterTreeNode \<Rightarrow> nat \<Rightarrow> nat \<Rightarrow> bool" where
  "covers node i j \<longleftrightarrow>
     fst (rowIndexRange node) \<le> i \<and> i < snd (rowIndexRange node) \<and>
     fst (columnIndexRange node) \<le> j \<and> j < snd (columnIndexRange node)"

definition ranges_inside :: "BlockClusterTree \<Rightarrow> BlockClusterTreeNode \<Rightarrow> bool" where
  "ranges_inside t node \<longleftrightarrow>
     fst (rowIndexRange node) \<le> snd (rowIndexRange node) \<and>
     snd (rowIndexRange node) \<le> numberOfDofs (rowClusterTree t) \<and>
     fst (columnIndexRange node) \<le> snd (columnIndexRange node) \<and>
     snd (columnIndexRange node) \<le> numberOfDofs (columnClusterTree t)"

definition BlockClusterTree_ok :: "BlockClusterTree \<Rightarrow> bool" where
  "BlockClusterTree_ok t \<longleftrightarrow>
     ClusterTree_ok (rowClusterTree t) \<and>
     ClusterTree_ok (columnClusterTree t) \<and>
     distinct (leafNodes t) \<and>
     (\<forall>node \<in> set (leafNodes t). ranges_inside t node) \<and>
     (\<forall>i < numberOfDofs (rowClusterTree t). \<forall>j < numberOfDofs (columnClusterTree t).
        length (filter (\<lambda>node. covers node i j) (leafNodes t)) = 1)"

text \<open>
  Modelled from the spec: the compressors are missing.  The exact dense block of a
  leaf for an operator \<open>a\<close>, given in the caller's ordering, holds the coefficients of
  \<open>a\<close> at the original indices of the leaf's row and column ranges; its size is the
  length of the row range times the length of the column range.  The dense compressor
  gives every leaf its exact dense block.
\<close>

definition exact_block ::
  "BlockClusterTree \<Rightarrow> 'a Matrix \<Rightarrow> BlockClusterTreeNode \<Rightarrow> 'a Matrix" where
  "exact_block t a node =
     Matrix_of (snd (rowIndexRange node) - fst (rowIndexRange node))
               (snd (columnIndexRange node) - fst (columnIndexRange node))
       (\<lambda>i j. coeff a
                (mapHMatDofToOriginalDof (rowClusterTree t) (fst (rowIndexRange node) + i))
                (mapHMatDofToOriginalDof (columnClusterTree t)
                   (fst (columnIndexRange node) + j)))"

definition denseCompressor :: "BlockClusterTree \<Rightarrow> 'a Matrix \<Rightarrow> 'a HMatrixCompressor" where
  "denseCompressor t a node = Inr (DenseData (exact_block t a node))"

text \<open>
  A hierarchical matrix holds the exact dense blocks of \<open>a\<close> when its map has one entry
  for each leaf of its tree and no other, and the entry of a leaf is that leaf's exact
  dense block.
\<close>

definition holds_exact_dense_blocks :: "'a HMatrix \<Rightarrow> 'a Matrix \<Rightarrow> bool" where
  "holds_exact_dense_blocks hm a \<longleftrightarrow>
     distinct (map fst (m_hMatrixData hm)) \<and>
     set (map fst (m_hMatrixData hm)) = set (leafNodes (m_blockClusterTree hm)) \<and>
     (\<forall>elem \<in> set (m_hMatrixData hm).
        snd elem = DenseData (exact_block (m_blockClusterTree hm) a (fst elem)))"

text \<open>The leaves that have block data, and the leaves a compressor succeeds on before
  its first failure.\<close>

definition leaves_with_data :: "'a HMatrix \<Rightarrow> BlockClusterTreeNode set" where
  "leaves_with_data hm = fst ` set (m_hMatrixData hm)"

definition compressed_before_failure ::
  "'a HMatrixCompressor \<Rightarrow> BlockClusterTreeNode list \<Rightarrow> BlockClusterTreeNode list" where
  "compressed_before_failure c nodes =
     takeWhile (\<lambda>node. case c node of Inl err \<Rightarrow> False | Inr nodeData \<Rightarrow> True) nodes"

subsection \<open>Sample data\<close>

text \<open>
  Four degrees of freedom on each side, two clusters of two on each side, four leaves;
  the row and the column cluster tree permute differently.
\<close>

definition tree4 :: BlockClusterTree where
  "tree4 =
     \<lparr>rowClusterTree =
        \<lparr>numberOfDofs = 4,
         mapOriginalDofToHMatDof = (\<lambda>i. [2, 0, 3, 1] ! i),
         mapHMatDofToOriginalDof = (\<lambda>p. [1, 3, 0, 2] ! p)\<rparr>,
      columnClusterTree =
        \<lparr>numberOfDofs = 4,
         mapOriginalDofToHMatDof = (\<lambda>i. [1, 2, 0, 3] ! i),
         mapHMatDofToOriginalDof = (\<lambda>p. [2, 0, 1, 3] ! p)\<rparr>,
      leafNodes =
        [\<lparr>nodeId = 0, rowIndexRange = (0, 2), columnIndexRange = (0, 2), admissible = False\<rparr>,
         \<lparr>nodeId = 1, rowIndexRange = (0, 2), columnIndexRange = (2, 4), admissible = False\<rparr>,
         \<lparr>nodeId = 2, rowIndexRange = (2, 4), columnIndexRange = (0, 2), admissible = False\<rparr>,
         \<lparr>nodeId = 3, rowIndexRange = (2, 4), columnIndexRange = (2, 4), admissible = False\<rparr>]\<rparr>"

definition A4 :: "int Matrix" where
  "A4 = \<lparr>mat_rows = 4, mat_cols = 4,
          coeffs = [[1, 2, 3, 4], [5, 6, 7, 8], [9, 10, 11, 12], [13, 14, 15, 16]]\<rparr>"

definition X4 :: "int Matrix" where
  "X4 = \<lparr>mat_rows = 4, mat_cols = 2, coeffs = [[1, 0], [0, 1], [2, - 1], [0, 3]]\<rparr>"

definition Y4 :: "int Matrix" where
  "Y4 = \<lparr>mat_rows = 4, mat_cols = 2, coeffs = [[7, 7], [7, 7], [7, 7], [7, 7]]\<rparr>"

definition hm4 :: "int HMatrix" where
  "hm4 = snd (initialize (HMatrix_ctor tree4) (denseCompressor tree4 A4))"

text \<open>
  Two degrees of freedom on each side and one leaf; the row cluster tree keeps the
  order, the column cluster tree swaps the two indices.
\<close>

definition tree2 :: BlockClusterTree where
  "tree2 =
     \<lparr>rowClusterTree =
        \<lparr>numberOfDofs = 2, mapOriginalDofToHMatDof = (\<lambda>i. i),
         mapHMatDofToOriginalDof = (\<lambda>p. p)\<rparr>,
      columnClusterTree =
        \<lparr>numberOfDofs = 2, mapOriginalDofToHMatDof = (\<lambda>i. 1 - i),
         mapHMatDofToOriginalDof = (\<lambda>p. 1 - p)\<rparr>,
      leafNodes =
        [\<lparr>nodeId = 0, rowIndexRange = (0, 2), columnIndexRange = (0, 2), admissible = False\<rparr>]\<rparr>"

definition A2 :: "int Matrix" where
  "A2 = \<lparr>mat_rows = 2, mat_cols = 2, coeffs = [[1, 2], [3, 4]]\<rparr>"

definition hm2 :: "int HMatrix" where
  "hm2 = snd (initialize (HMatrix_ctor tree2) (denseCompressor tree2 A2))"

text \<open>
  The same operator transposed, over the same two cluster trees with their roles
  exchanged.
\<close>

definition tree2T :: BlockClusterTree where
  "tree2T =
     \<lparr>rowClusterTree = columnClusterTree tree2,
      columnClusterTree = rowClusterTree tree2,
      leafNodes =
        [\<lparr>nodeId = 0, rowIndexRange = (0, 2), columnIndexRange = (0, 2), admissible = False\<rparr>]\<rparr>"

definition hm2T :: "int HMatrix" where
  "hm2T = snd (initialize (HMatrix_ctor tree2T) (denseCompressor tree2T (transpose_mat A2)))"

definition column_vector :: "'a list \<Rightarrow> 'a Matrix" where
  "column_vector xs = \<lparr>mat_rows = length xs, mat_cols = 1, coeffs = map (\<lambda>x. [x]) xs\<rparr>"

text \<open>A compressor that gives the leaf with \<open>nodeId = 1\<close> no data and fails on it.\<close>

definition failing_compressor :: "int HMatrixCompressor" where
  "failing_compressor node =
     (if nodeId node = 1 then Inl CompressionFailure
      else denseCompressor tree4 A4 node)"


subsection \<open>What one leaf adds\<close>

text \<open>
  The input and the output range of a leaf for a transpose mode, as the loop body of
  \<open>apply\<close> selects them; the condition under which the leaf's block data fits its
  ranges and the ranges fit the permuted matrices; and the amount the leaf adds to the
  coefficient \<open>(i, j)\<close> of the accumulator.
\<close>

definition inputRangeOf :: "TransposeMode \<Rightarrow> BlockClusterTreeNode \<Rightarrow> nat \<times> nat" where
  "inputRangeOf transMode node =
     (if transMode = NOTRANS then columnIndexRange node else rowIndexRange node)"

definition outputRangeOf :: "TransposeMode \<Rightarrow> BlockClusterTreeNode \<Rightarrow> nat \<times> nat" where
  "outputRangeOf transMode node =
     (if transMode = NOTRANS then rowIndexRange node else columnIndexRange node)"

definition leaf_fits ::
  "TransposeMode \<Rightarrow> nat \<Rightarrow> nat \<Rightarrow> BlockClusterTreeNode \<times> ('a::comm_ring_1) HMatrixData \<Rightarrow> bool"
  where
  "leaf_fits transMode nx ny elem \<longleftrightarrow>
     (let inputRange = inputRangeOf transMode (fst elem);
          outputRange = outputRangeOf transMode (fst elem);
          a = op_mat transMode (HMatrixData_block (snd elem))
      in fst inputRange \<le> snd inputRange \<and> snd inputRange \<le> nx \<and>
         fst outputRange \<le> snd outputRange \<and> snd outputRange \<le> ny \<and>
         mat_rows a = snd outputRange - fst outputRange \<and>
         mat_cols a = snd inputRange - fst inputRange)"

definition leaf_term ::
  "TransposeMode \<Rightarrow> ('a::comm_ring_1) \<Rightarrow> 'a Matrix \<Rightarrow> BlockClusterTreeNode \<times> 'a HMatrixData
     \<Rightarrow> nat \<Rightarrow> nat \<Rightarrow> 'a" where
  "leaf_term transMode alpha xPermuted elem i j =
     (let inputRange = inputRangeOf transMode (fst elem);
          outputRange = outputRangeOf transMode (fst elem);
          a = op_mat transMode (HMatrixData_block (snd elem))
      in if fst outputRange \<le> i \<and> i < snd outputRange
         then alpha * sum_list (map (\<lambda>k. coeff a (i - fst outputRange) k *
                                         coeff xPermuted (fst inputRange + k) j)
                                  [0 ..< snd inputRange - fst inputRange])
         else 0)"


section \<open>Properties of the piecewise constant scalar space\<close>

text \<open>
  Claim C10.  \<open>setElementVariant(element, variant)\<close> throws exactly when \<open>variant\<close> differs
  from \<open>elementVariant(element)\<close>, and whether it throws or not the space is left as it was.
\<close>

theorem setElementVariant_throws_iff_and_keeps_state:
  "(fst (setElementVariant s element variant) = Some InvalidVariant
      \<longleftrightarrow> variant \<noteq> elementVariant s element) \<and>
   (fst (setElementVariant s element variant) = None
      \<longleftrightarrow> variant = elementVariant s element) \<and>
   snd (setElementVariant s element variant) = s"
  by (simp add: setElementVariant_def)

subsection \<open>Degrees of freedom\<close>

lemma filter_numbering:
  assumes "\<forall>k < length xs. P (xs ! k) \<longrightarrow> f (xs ! k) = g (c + length (filter P (take k xs)))"
  shows "map f (filter P xs) = map g [c ..< c + length (filter P xs)]"
  using assms
proof (induction xs rule: rev_induct)
  case Nil
  then show ?case by simp
next
  case (snoc x xs)
  have pre: "\<forall>k < length xs. P (xs ! k) \<longrightarrow> f (xs ! k) = g (c + length (filter P (take k xs)))"
  proof (intro allI impI)
    fix k assume k: "k < length xs" and p: "P (xs ! k)"
    have lt: "k < length (xs @ [x])" using k by simp
    have nth: "(xs @ [x]) ! k = xs ! k" using k by (simp add: nth_append)
    have tk: "take k (xs @ [x]) = take k xs" using k by simp
    from snoc.prems lt have "P ((xs @ [x]) ! k) \<longrightarrow>
        f ((xs @ [x]) ! k) = g (c + length (filter P (take k (xs @ [x]))))"
      by blast
    then show "f (xs ! k) = g (c + length (filter P (take k xs)))"
      using p unfolding nth tk by blast
  qed
  have ih: "map f (filter P xs) = map g [c ..< c + length (filter P xs)]"
    using snoc.IH pre by blast
  show ?case
  proof (cases "P x")
    case True
    have lt: "length xs < length (xs @ [x])" by simp
    from snoc.prems lt have "P ((xs @ [x]) ! length xs) \<longrightarrow>
        f ((xs @ [x]) ! length xs) = g (c + length (filter P (take (length xs) (xs @ [x]))))"
      by blast
    with True have "f x = g (c + length (filter P xs))"
      by simp
    then show ?thesis using ih True by simp
  next
    case False
    then show ?thesis using ih by simp
  qed
qed

lemma assignDofs_loop_spec:
  assumes "distinct (map mapper_entityIndex es)"
    and "\<forall>e \<in> set es. mapper_entityIndex e < length l2g"
  shows "\<exists>l2g'. assignDofs_loop segment es (cnt, l2g, g2l) =
           Inr (cnt + int (length (filter (inSegment segment) es)), l2g',
                g2l @ map (\<lambda>e. [\<lparr>entityIndex = mapper_entityIndex e, dofIndex = 0\<rparr>])
                        (filter (inSegment segment) es)) \<and>
         length l2g' = length l2g \<and>
         (\<forall>k < length es. l2g' ! mapper_entityIndex (es ! k) =
            [if inSegment segment (es ! k)
             then cnt + int (length (filter (inSegment segment) (take k es))) else - 1]) \<and>
         (\<forall>i. i \<notin> mapper_entityIndex ` set es \<longrightarrow> l2g' ! i = l2g ! i)"
  using assms
proof (induction es arbitrary: cnt l2g g2l)
  case Nil
  then show ?case by simp
next
  case (Cons e es)
  let ?i = "mapper_entityIndex e"
  have ilt: "?i < length l2g" using Cons.prems by simp
  have inotin: "?i \<notin> mapper_entityIndex ` set es" using Cons.prems by simp
  have d: "distinct (map mapper_entityIndex es)" using Cons.prems by simp
  show ?case
  proof (cases "inSegment segment e")
    case True
    let ?l = "l2g[?i := [cnt]]"
    have b: "\<forall>e \<in> set es. mapper_entityIndex e < length ?l" using Cons.prems by simp
    from Cons.IH[OF d b, of "cnt + 1" "g2l @ [[\<lparr>entityIndex = ?i, dofIndex = 0\<rparr>]]"]
    obtain l2g' where
      r: "assignDofs_loop segment es (cnt + 1, ?l, g2l @ [[\<lparr>entityIndex = ?i, dofIndex = 0\<rparr>]]) =
           Inr (cnt + 1 + int (length (filter (inSegment segment) es)), l2g',
                (g2l @ [[\<lparr>entityIndex = ?i, dofIndex = 0\<rparr>]]) @
                 map (\<lambda>e. [\<lparr>entityIndex = mapper_entityIndex e, dofIndex = 0\<rparr>])
                        (filter (inSegment segment) es))"
      and len: "length l2g' = length ?l"
      and at: "\<forall>k < length es. l2g' ! mapper_entityIndex (es ! k) =
            [if inSegment segment (es ! k)
             then cnt + 1 + int (length (filter (inSegment segment) (take k es))) else - 1]"
      and other: "\<forall>i. i \<notin> mapper_entityIndex ` set es \<longrightarrow> l2g' ! i = ?l ! i"
      by blast
    have at0: "l2g' ! ?i = [cnt]" using other inotin ilt by simp
    have atk: "l2g' ! mapper_entityIndex ((e # es) ! k) =
            [if inSegment segment ((e # es) ! k)
             then cnt + int (length (filter (inSegment segment) (take k (e # es)))) else - 1]"
      if "k < length (e # es)" for k
    proof (cases k)
      case 0
      then show ?thesis using at0 True by simp
    next
      case (Suc j)
      then have "j < length es" using that by simp
      then show ?thesis using at Suc True by simp
    qed
    have oth: "l2g' ! i = l2g ! i" if "i \<notin> mapper_entityIndex ` set (e # es)" for i
      using other that by auto
    have step: "assignDofs_loop segment (e # es) (cnt, l2g, g2l) =
        assignDofs_loop segment es (cnt + 1, ?l, g2l @ [[\<lparr>entityIndex = ?i, dofIndex = 0\<rparr>]])"
      using True ilt by (simp add: inSegment_def Let_def)
    show ?thesis
      apply (rule exI[of _ l2g'])
      unfolding step
      using True r len atk oth by simp
  next
    case False
    let ?l = "l2g[?i := [- 1]]"
    have b: "\<forall>e \<in> set es. mapper_entityIndex e < length ?l" using Cons.prems by simp
    from Cons.IH[OF d b, of cnt g2l]
    obtain l2g' where
      r: "assignDofs_loop segment es (cnt, ?l, g2l) =
           Inr (cnt + int (length (filter (inSegment segment) es)), l2g',
                g2l @ map (\<lambda>e. [\<lparr>entityIndex = mapper_entityIndex e, dofIndex = 0\<rparr>])
                        (filter (inSegment segment) es))"
      and len: "length l2g' = length ?l"
      and at: "\<forall>k < length es. l2g' ! mapper_entityIndex (es ! k) =
            [if inSegment segment (es ! k)
             then cnt + int (length (filter (inSegment segment) (take k es))) else - 1]"
      and other: "\<forall>i. i \<notin> mapper_entityIndex ` set es \<longrightarrow> l2g' ! i = ?l ! i"
      by blast
    have at0: "l2g' ! ?i = [- 1]" using other inotin ilt by simp
    have atk: "l2g' ! mapper_entityIndex ((e # es) ! k) =
            [if inSegment segment ((e # es) ! k)
             then cnt + int (length (filter (inSegment segment) (take k (e # es)))) else - 1]"
      if "k < length (e # es)" for k
    proof (cases k)
      case 0
      then show ?thesis using at0 False by simp
    next
      case (Suc j)
      then have "j < length es" using that by simp
      then show ?thesis using at Suc False by simp
    qed
    have oth: "l2g' ! i = l2g ! i" if "i \<notin> mapper_entityIndex ` set (e # es)" for i
      using other that by auto
    have step: "assignDofs_loop segment (e # es) (cnt, l2g, g2l) =
        assignDofs_loop segment es (cnt, ?l, g2l)"
      using False ilt by (simp add: inSegment_def Let_def)
    show ?thesis
      apply (rule exI[of _ l2g'])
      unfolding step
      using False r len atk oth by simp
  qed
qed

text \<open>
  Claim C9.  Constructing the space over a segment of a grid view (whose element mapper
  numbers the elements injectively below \<open>entityCount(0)\<close>) succeeds;
  \<open>globalDofCount()\<close> is the number of elements of the view that the segment contains;
  the element visited at position \<open>k\<close> gets the one global DOF that is the number of
  contained elements visited before it when it is contained, and \<open>-1\<close> when it is not;
  so the contained elements, in iteration order, carry the global DOFs
  \<open>0, 1, ..., globalDofCount() - 1\<close>.
\<close>

theorem ctor_assigns_dofs:
  assumes "view_ok view"
  shows "\<exists>s. PiecewiseConstantScalarSpace_ctor view segment = Inr s \<and>
           globalDofCount s = length (filter (inSegment segment) (entities0 view)) \<and>
           (\<forall>k < length (entities0 view).
              m_local2globalDofs s ! mapper_entityIndex (entities0 view ! k) =
                [if inSegment segment (entities0 view ! k)
                 then int (length (filter (inSegment segment) (take k (entities0 view))))
                 else - 1]) \<and>
           map (\<lambda>e. m_local2globalDofs s ! mapper_entityIndex e)
               (filter (inSegment segment) (entities0 view)) =
             map (\<lambda>g. [int g]) [0 ..< globalDofCount s]"
proof -
  let ?es = "entities0 view"
  have d: "distinct (map mapper_entityIndex ?es)" using assms by (simp add: view_ok_def)
  have b: "\<forall>e \<in> set ?es. mapper_entityIndex e < length (replicate (entityCount0 view) ([]::int list))"
    using assms by (simp add: view_ok_def)
  from assignDofs_loop_spec[OF d b, of segment 0 "[]"]
  obtain l2g' where
    r: "assignDofs_loop segment ?es (0, replicate (entityCount0 view) [], []) =
          Inr (int (length (filter (inSegment segment) ?es)), l2g',
               map (\<lambda>e. [\<lparr>entityIndex = mapper_entityIndex e, dofIndex = 0\<rparr>])
                        (filter (inSegment segment) ?es))"
    and at: "\<forall>k < length ?es. l2g' ! mapper_entityIndex (?es ! k) =
            [if inSegment segment (?es ! k)
             then int (length (filter (inSegment segment) (take k ?es))) else - 1]"
    by auto
  let ?s = "\<lparr>m_view = view, m_local2globalDofs = l2g',
             m_global2localDofs = map (\<lambda>e. [\<lparr>entityIndex = mapper_entityIndex e, dofIndex = 0\<rparr>])
                        (filter (inSegment segment) ?es)\<rparr>"
  have c: "PiecewiseConstantScalarSpace_ctor view segment = Inr ?s"
    using r by (simp add: PiecewiseConstantScalarSpace_ctor_def assignDofsImpl_def)
  have cnt: "globalDofCount ?s = length (filter (inSegment segment) ?es)"
    by (simp add: globalDofCount_def)
  have consecutive: "map (\<lambda>e. l2g' ! mapper_entityIndex e) (filter (inSegment segment) ?es) =
             map (\<lambda>g. [int g]) [0 ..< length (filter (inSegment segment) ?es)]"
    using filter_numbering[of "entities0 view" "inSegment segment" "\<lambda>e. l2g' ! mapper_entityIndex e" "\<lambda>g. [int g]" 0] at
    by simp
  show ?thesis
    apply (rule exI[of _ ?s])
    using c cnt at consecutive by simp
qed

theorem ctor_assigns_dofs_witness:
  "view_ok sample_view \<and>
   (\<exists>s. PiecewiseConstantScalarSpace_ctor sample_view sample_segment = Inr s \<and>
        globalDofCount s = 2 \<and>
        m_local2globalDofs s ! 2 = [0] \<and>
        m_local2globalDofs s ! 0 = [- 1] \<and>
        m_local2globalDofs s ! 1 = [1])"
proof -
  have h: "view_ok sample_view"
    by (simp add: view_ok_def sample_view_def)
  from ctor_assigns_dofs[OF h, of sample_segment] obtain s where
    c: "PiecewiseConstantScalarSpace_ctor sample_view sample_segment = Inr s"
    and n: "globalDofCount s = length (filter (inSegment sample_segment) (entities0 sample_view))"
    and at: "\<forall>k < length (entities0 sample_view).
              m_local2globalDofs s ! mapper_entityIndex (entities0 sample_view ! k) =
                [if inSegment sample_segment (entities0 sample_view ! k)
                 then int (length (filter (inSegment sample_segment) (take k (entities0 sample_view))))
                 else - 1]"
    by blast
  have n2: "globalDofCount s = 2"
    using n by (simp add: sample_view_def sample_segment_def inSegment_def)
  have a0: "m_local2globalDofs s ! 2 = [0]"
    using at[rule_format, of 0] by (simp add: sample_view_def sample_segment_def inSegment_def)
  have a1: "m_local2globalDofs s ! 0 = [- 1]"
    using at[rule_format, of 1] by (simp add: sample_view_def sample_segment_def inSegment_def)
  have a2: "m_local2globalDofs s ! 1 = [1]"
    using at[rule_format, of 2] by (simp add: sample_view_def sample_segment_def inSegment_def)
  show ?thesis using h c n2 a0 a1 a2 by blast
qed

section \<open>Properties of the hierarchical matrix\<close>

subsection \<open>Dense matrices and the permutation loops\<close>

lemma Matrix_of_rows [simp]: "mat_rows (Matrix_of r c f) = r"
  and Matrix_of_cols [simp]: "mat_cols (Matrix_of r c f) = c"
  by (simp_all add: Matrix_of_def)

lemma Matrix_of_ok [simp]: "Matrix_ok (Matrix_of r c f)"
  by (auto simp: Matrix_ok_def Matrix_of_def)

lemma coeff_Matrix_of [simp]: "i < r \<Longrightarrow> j < c \<Longrightarrow> coeff (Matrix_of r c f) i j = f i j"
  by (simp add: coeff_def Matrix_of_def)

lemma Matrix_of_cong:
  assumes "\<And>i j. i < r \<Longrightarrow> j < c \<Longrightarrow> f i j = g i j"
  shows "Matrix_of r c f = Matrix_of r c g"
  using assms by (simp add: Matrix_of_def)

lemma Matrix_ok_eq_Matrix_of:
  assumes "Matrix_ok m"
  shows "m = Matrix_of (mat_rows m) (mat_cols m) (coeff m)"
proof -
  have len: "length (coeffs m) = mat_rows m" using assms by (simp add: Matrix_ok_def)
  have rowlen: "\<And>i. i < mat_rows m \<Longrightarrow> length (coeffs m ! i) = mat_cols m"
    using assms by (simp add: Matrix_ok_def)
  have "coeffs m = map (\<lambda>i. map (\<lambda>j. coeff m i j) [0 ..< mat_cols m]) [0 ..< mat_rows m]"
  proof (rule nth_equalityI)
    show "length (coeffs m) = length (map (\<lambda>i. map (\<lambda>j. coeff m i j) [0 ..< mat_cols m]) [0 ..< mat_rows m])"
      using len by simp
  next
    fix i assume "i < length (coeffs m)"
    then have i: "i < mat_rows m" using len by simp
    have "coeffs m ! i = map (\<lambda>j. coeff m i j) [0 ..< mat_cols m]"
      by (rule nth_equalityI) (simp_all add: rowlen[OF i] coeff_def)
    then show "coeffs m ! i = map (\<lambda>i. map (\<lambda>j. coeff m i j) [0 ..< mat_cols m]) [0 ..< mat_rows m] ! i"
      using i by simp
  qed
  then have "coeffs m = coeffs (Matrix_of (mat_rows m) (mat_cols m) (coeff m))"
    by (simp add: Matrix_of_def)
  then show ?thesis by (simp add: Matrix_of_def)
qed

lemma Matrix_eqI:
  assumes "Matrix_ok a" "Matrix_ok b" "mat_rows a = mat_rows b" "mat_cols a = mat_cols b"
    and "\<And>i j. i < mat_rows a \<Longrightarrow> j < mat_cols a \<Longrightarrow> coeff a i j = coeff b i j"
  shows "a = b"
proof -
  have "a = Matrix_of (mat_rows a) (mat_cols a) (coeff a)"
    by (rule Matrix_ok_eq_Matrix_of[OF assms(1)])
  also have "\<dots> = Matrix_of (mat_rows a) (mat_cols a) (coeff b)"
    by (rule Matrix_of_cong) (rule assms(5))
  also have "\<dots> = b"
    using Matrix_ok_eq_Matrix_of[OF assms(2)] assms(3,4) by simp
  finally show ?thesis .
qed

lemma fold_update_row:
  "n \<le> length s \<Longrightarrow> n \<le> length r \<Longrightarrow>
   fold (\<lambda>j row. row[j := s ! j]) [0 ..< n] r = take n s @ drop n r"
proof (induction n)
  case 0
  then show ?case by simp
next
  case (Suc n)
  have "fold (\<lambda>j row. row[j := s ! j]) [0 ..< Suc n] r = (take n s @ drop n r)[n := s ! n]"
    using Suc by simp
  also have "\<dots> = take n s @ (drop n r)[0 := s ! n]"
    using Suc.prems by (simp add: list_update_append)
  also have "(drop n r)[0 := s ! n] = s ! n # drop (Suc n) r"
    using Suc.prems Cons_nth_drop_Suc[of n r] by (cases "drop n r") auto
  also have "take n s @ s ! n # drop (Suc n) r = take (Suc n) s @ drop (Suc n) r"
    using Suc.prems by (simp add: take_Suc_conv_app_nth)
  finally show ?case .
qed

lemma fold_set_coeff:
  "p < length (coeffs dst) \<Longrightarrow>
   fold (\<lambda>j d. set_coeff d p j (v j)) js dst =
     dst\<lparr>coeffs := (coeffs dst)[p := fold (\<lambda>j row. row[j := v j]) js (coeffs dst ! p)]\<rparr>"
proof (induction js arbitrary: dst)
  case Nil
  then show ?case by simp
next
  case (Cons j js)
  have "p < length (coeffs (set_coeff dst p j (v j)))"
    using Cons.prems by (simp add: set_coeff_def)
  from Cons.IH[OF this] show ?case
    using Cons.prems by (simp add: set_coeff_def)
qed

lemma copy_row_eq:
  assumes "Matrix_ok mat" "Matrix_ok dst" "mat_cols dst = mat_cols mat"
    and "i < mat_rows mat" "p < mat_rows dst"
  shows "copy_row mat i dst p = dst\<lparr>coeffs := (coeffs dst)[p := coeffs mat ! i]\<rparr>"
proof -
  have p: "p < length (coeffs dst)" using assms by (simp add: Matrix_ok_def)
  have ls: "length (coeffs mat ! i) = mat_cols mat" using assms by (simp add: Matrix_ok_def)
  have lr: "length (coeffs dst ! p) = mat_cols mat" using assms by (simp add: Matrix_ok_def)
  have "fold (\<lambda>j row. row[j := coeffs mat ! i ! j]) [0 ..< mat_cols mat] (coeffs dst ! p) = coeffs mat ! i"
    using fold_update_row[of "mat_cols mat" "coeffs mat ! i" "coeffs dst ! p"] ls lr by simp
  then show ?thesis
    unfolding copy_row_def coeff_def using fold_set_coeff[OF p] by simp
qed

lemma fold_rows_update:
  assumes "distinct is" "inj_on f (set is)" "\<forall>i \<in> set is. f i < length rs"
  shows "length (fold (\<lambda>i rows. rows[f i := src ! i]) is rs) = length rs \<and>
         (\<forall>i \<in> set is. fold (\<lambda>i rows. rows[f i := src ! i]) is rs ! f i = src ! i) \<and>
         (\<forall>p. p \<notin> f ` set is \<longrightarrow> fold (\<lambda>i rows. rows[f i := src ! i]) is rs ! p = rs ! p)"
  using assms
proof (induction "is" arbitrary: rs)
  case Nil
  then show ?case by simp
next
  case (Cons a as)
  let ?rs = "rs[f a := src ! a]"
  let ?res = "fold (\<lambda>i rows. rows[f i := src ! i]) as ?rs"
  have d: "distinct as" and inj: "inj_on f (set as)" and b: "\<forall>i \<in> set as. f i < length ?rs"
    using Cons.prems by (auto simp: inj_on_def)
  have fa: "f a \<notin> f ` set as" using Cons.prems by (auto simp: inj_on_def)
  have fa_lt: "f a < length rs" using Cons.prems by simp
  from Cons.IH[OF d inj b]
  have len: "length ?res = length ?rs"
    and at: "\<forall>i \<in> set as. ?res ! f i = src ! i"
    and other: "\<forall>p. p \<notin> f ` set as \<longrightarrow> ?res ! p = ?rs ! p"
    by blast+
  have "?res ! f a = src ! a" using other fa fa_lt by simp
  moreover have "\<forall>p. p \<notin> f ` set (a # as) \<longrightarrow> ?res ! p = rs ! p"
    using other by auto
  ultimately show ?case using len at by simp
qed

lemma permute_rows_fold:
  assumes "Matrix_ok mat" "Matrix_ok dst" "mat_cols dst = mat_cols mat"
    and "\<forall>i \<in> set is. i < mat_rows mat \<and> f i < mat_rows dst"
  shows "permute_rows f mat is dst =
           Inr (dst\<lparr>coeffs := fold (\<lambda>i rows. rows[f i := coeffs mat ! i]) is (coeffs dst)\<rparr>)"
  using assms
proof (induction "is" arbitrary: dst)
  case Nil
  then show ?case by simp
next
  case (Cons a as)
  have a: "a < mat_rows mat" and fa: "f a < mat_rows dst" using Cons.prems by auto
  let ?dst = "dst\<lparr>coeffs := (coeffs dst)[f a := coeffs mat ! a]\<rparr>"
  have cr: "copy_row mat a dst (f a) = ?dst"
    by (rule copy_row_eq[OF Cons.prems(1) Cons.prems(2) Cons.prems(3) a fa])
  have rowa: "length (coeffs mat ! a) = mat_cols mat"
    using Cons.prems(1) a by (simp add: Matrix_ok_def)
  have ok: "Matrix_ok ?dst"
    using Cons.prems(2,3) rowa by (auto simp: Matrix_ok_def dest!: set_update_subset_insert[THEN subsetD])
  have c: "mat_cols ?dst = mat_cols mat" using Cons.prems(3) by simp
  have b: "\<forall>i \<in> set as. i < mat_rows mat \<and> f i < mat_rows ?dst" using Cons.prems(4) by simp
  from Cons.IH[OF Cons.prems(1) ok c b] show ?case
    using fa cr by simp
qed

lemma permute_rows_bij:
  assumes mat: "Matrix_ok mat"
    and f: "\<forall>i < mat_rows mat. f i < mat_rows mat \<and> g (f i) = i"
    and g: "\<forall>p < mat_rows mat. g p < mat_rows mat \<and> f (g p) = p"
  shows "permute_rows f mat [0 ..< mat_rows mat] (Matrix_new (mat_rows mat) (mat_cols mat)) =
           Inr (Matrix_of (mat_rows mat) (mat_cols mat) (\<lambda>p j. coeff mat (g p) j))"
proof -
  let ?n = "mat_rows mat" and ?c = "mat_cols mat"
  let ?dst = "Matrix_new ?n ?c :: 'a Matrix"
  let ?res = "fold (\<lambda>i rows. rows[f i := coeffs mat ! i]) [0 ..< ?n] (coeffs ?dst)"
  have ok: "Matrix_ok ?dst" by (simp add: Matrix_new_def)
  have c: "mat_cols ?dst = ?c" by (simp add: Matrix_new_def)
  have b: "\<forall>i \<in> set [0 ..< ?n]. i < ?n \<and> f i < mat_rows ?dst"
    using f by (simp add: Matrix_new_def)
  have r: "permute_rows f mat [0 ..< ?n] ?dst = Inr (?dst\<lparr>coeffs := ?res\<rparr>)"
    by (rule permute_rows_fold[OF mat ok c b])
  have inj: "inj_on f (set [0 ..< ?n])"
  proof (rule inj_onI)
    fix x y assume "x \<in> set [0 ..< ?n]" "y \<in> set [0 ..< ?n]" "f x = f y"
    then have x: "x < ?n" and y: "y < ?n" and e: "f x = f y" by auto
    have gx: "g (f x) = x" using f x by blast
    have gy: "g (f y) = y" using f y by blast
    have "g (f x) = g (f y)" by (rule arg_cong[OF e])
    then show "x = y" unfolding gx gy .
  qed
  have len0: "length (coeffs ?dst) = ?n" by (simp add: Matrix_new_def Matrix_of_def)
  have b2: "\<forall>i \<in> set [0 ..< ?n]. f i < length (coeffs ?dst)"
    using f len0 by simp
  from fold_rows_update[OF distinct_upt inj b2, of "coeffs mat"]
  have len: "length ?res = ?n" and at: "\<forall>i \<in> set [0 ..< ?n]. ?res ! f i = coeffs mat ! i"
    using len0 by auto
  have rowp: "?res ! p = coeffs mat ! g p" if "p < ?n" for p
  proof -
    have "g p < ?n" and "f (g p) = p" using g that by auto
    then have "g p \<in> set [0 ..< ?n]" by simp
    with at have "?res ! f (g p) = coeffs mat ! g p" by blast
    then show ?thesis using \<open>f (g p) = p\<close> by simp
  qed
  have okm: "\<And>i. i < ?n \<Longrightarrow> length (coeffs mat ! i) = ?c"
    using mat by (simp add: Matrix_ok_def)
  have gl: "\<And>p. p < ?n \<Longrightarrow> g p < ?n" using g by simp
  have "?res = map (\<lambda>p. map (\<lambda>j. coeff mat (g p) j) [0 ..< ?c]) [0 ..< ?n]"
  proof (rule nth_equalityI)
    show "length ?res = length (map (\<lambda>p. map (\<lambda>j. coeff mat (g p) j) [0 ..< ?c]) [0 ..< ?n])"
      using len by simp
  next
    fix p assume "p < length ?res"
    then have p: "p < ?n" using len by simp
    have "coeffs mat ! g p = map (\<lambda>j. coeff mat (g p) j) [0 ..< ?c]"
      by (rule nth_equalityI) (simp_all add: okm[OF gl[OF p]] coeff_def)
    then show "?res ! p = map (\<lambda>p. map (\<lambda>j. coeff mat (g p) j) [0 ..< ?c]) [0 ..< ?n] ! p"
      using rowp[OF p] p by simp
  qed
  then have "?dst\<lparr>coeffs := ?res\<rparr> = Matrix_of ?n ?c (\<lambda>p j. coeff mat (g p) j)"
    by (simp add: Matrix_new_def Matrix_of_def)
  then show ?thesis using r by simp
qed

lemma permuteMatToHMatDofs_ok:
  assumes "ClusterTree_ok (clusterTreeOf hm sel)" "Matrix_ok mat"
    and "mat_rows mat = numberOfDofs (clusterTreeOf hm sel)"
  shows "permuteMatToHMatDofs hm mat sel =
           Inr (Matrix_of (mat_rows mat) (mat_cols mat)
                  (\<lambda>p j. coeff mat (mapHMatDofToOriginalDof (clusterTreeOf hm sel) p) j))"
proof -
  let ?ct = "clusterTreeOf hm sel"
  have f: "\<forall>i < mat_rows mat. mapOriginalDofToHMatDof ?ct i < mat_rows mat \<and>
             mapHMatDofToOriginalDof ?ct (mapOriginalDofToHMatDof ?ct i) = i"
    using assms(1,3) by (simp add: ClusterTree_ok_def)
  have g: "\<forall>p < mat_rows mat. mapHMatDofToOriginalDof ?ct p < mat_rows mat \<and>
             mapOriginalDofToHMatDof ?ct (mapHMatDofToOriginalDof ?ct p) = p"
    using assms(1,3) by (simp add: ClusterTree_ok_def)
  show ?thesis
    unfolding permuteMatToHMatDofs_def Let_def
    using permute_rows_bij[OF assms(2) f g] assms(3) by simp
qed

lemma permuteMatToOriginalDofs_ok:
  assumes "ClusterTree_ok (clusterTreeOf hm sel)" "Matrix_ok mat"
    and "mat_rows mat = numberOfDofs (clusterTreeOf hm sel)"
  shows "permuteMatToOriginalDofs hm mat sel =
           Inr (Matrix_of (mat_rows mat) (mat_cols mat)
                  (\<lambda>i j. coeff mat (mapOriginalDofToHMatDof (clusterTreeOf hm sel) i) j))"
proof -
  let ?ct = "clusterTreeOf hm sel"
  have f: "\<forall>i < mat_rows mat. mapOriginalDofToHMatDof ?ct i < mat_rows mat \<and>
             mapHMatDofToOriginalDof ?ct (mapOriginalDofToHMatDof ?ct i) = i"
    using assms(1,3) by (simp add: ClusterTree_ok_def)
  have g: "\<forall>p < mat_rows mat. mapHMatDofToOriginalDof ?ct p < mat_rows mat \<and>
             mapOriginalDofToHMatDof ?ct (mapHMatDofToOriginalDof ?ct p) = p"
    using assms(1,3) by (simp add: ClusterTree_ok_def)
  show ?thesis
    unfolding permuteMatToOriginalDofs_def Let_def
    using permute_rows_bij[OF assms(2) g f] assms(3) by simp
qed

subsection \<open>Permutation\<close>

text \<open>
  Claim C3.  For a cluster tree whose index maps are inverse bijections on
  \<open>[0, numberOfDofs())\<close> and a dense matrix \<open>M\<close> with \<open>numberOfDofs()\<close> rows,
  \<open>permuteMatToHMatDofs(M, sel)\<close> returns a matrix that
  \<open>permuteMatToOriginalDofs(., sel)\<close> turns back into \<open>M\<close>, for \<open>sel = ROW\<close> with the row
  cluster tree and for \<open>sel = COL\<close> with the column cluster tree.
\<close>

theorem permute_round_trip:
  assumes "ClusterTree_ok (clusterTreeOf hm sel)" "Matrix_ok M"
    and "mat_rows M = numberOfDofs (clusterTreeOf hm sel)"
  shows "\<exists>P. permuteMatToHMatDofs hm M sel = Inr P \<and> permuteMatToOriginalDofs hm P sel = Inr M"
proof -
  let ?ct = "clusterTreeOf hm sel"
  let ?P = "Matrix_of (mat_rows M) (mat_cols M) (\<lambda>p j. coeff M (mapHMatDofToOriginalDof ?ct p) j)"
  have 1: "permuteMatToHMatDofs hm M sel = Inr ?P"
    by (rule permuteMatToHMatDofs_ok[OF assms])
  have rows: "mat_rows ?P = numberOfDofs ?ct" using assms(3) by simp
  have 2: "permuteMatToOriginalDofs hm ?P sel =
        Inr (Matrix_of (mat_rows ?P) (mat_cols ?P) (\<lambda>i j. coeff ?P (mapOriginalDofToHMatDof ?ct i) j))"
    by (rule permuteMatToOriginalDofs_ok[OF assms(1) Matrix_of_ok rows])
  have "Matrix_of (mat_rows ?P) (mat_cols ?P) (\<lambda>i j. coeff ?P (mapOriginalDofToHMatDof ?ct i) j) =
        Matrix_of (mat_rows M) (mat_cols M) (coeff M)"
    unfolding Matrix_of_rows Matrix_of_cols
  proof (rule Matrix_of_cong)
    fix i j assume i: "i < mat_rows M" and j: "j < mat_cols M"
    have "mapOriginalDofToHMatDof ?ct i < mat_rows M"
      and "mapHMatDofToOriginalDof ?ct (mapOriginalDofToHMatDof ?ct i) = i"
      using assms(1,3) i by (simp_all add: ClusterTree_ok_def)
    then show "coeff ?P (mapOriginalDofToHMatDof ?ct i) j = coeff M i j"
      using j by simp
  qed
  also have "\<dots> = M" using Matrix_ok_eq_Matrix_of[OF assms(2)] by simp
  finally show ?thesis using 1 2 by simp
qed

theorem permute_round_trip_witness:
  "ClusterTree_ok (clusterTreeOf hm4 ROW) \<and>
   Matrix_ok X4 \<and>
   mat_rows X4 = numberOfDofs (clusterTreeOf hm4 ROW) \<and>
   (\<exists>P. permuteMatToHMatDofs hm4 X4 ROW = Inr P \<and>
        permuteMatToOriginalDofs hm4 P ROW = Inr X4)"
proof -
  have a: "ClusterTree_ok (clusterTreeOf hm4 ROW)"
    by code_simp
  have b: "Matrix_ok X4"
    by code_simp
  have c: "mat_rows X4 = numberOfDofs (clusterTreeOf hm4 ROW)"
    by code_simp
  show ?thesis
    using a b c permute_round_trip[OF a b c] by blast
qed

text \<open>
  Claim C5.  When the number of rows of \<open>mat\<close> differs from \<open>numberOfDofs()\<close> of the
  cluster tree that \<open>ROW\<close> or \<open>COL\<close> selects, \<open>permuteMatToHMatDofs\<close> throws the
  wrong-number-of-rows error.  The member function is \<open>const\<close> and takes \<open>mat\<close> by
  \<open>const\<close> reference: it is a function of the matrix and its argument, and the error is
  all it gives back.
\<close>

theorem permuteMatToHMatDofs_wrong_rows:
  assumes "mat_rows mat \<noteq> numberOfDofs (clusterTreeOf hm rowOrColumn)"
  shows "permuteMatToHMatDofs hm mat rowOrColumn = Inl WrongNumberOfRows"
  using assms by (auto simp: permuteMatToHMatDofs_def Let_def)

theorem permuteMatToHMatDofs_wrong_rows_witness:
  "mat_rows (column_vector [1, 2, 3 :: int]) \<noteq> numberOfDofs (clusterTreeOf hm4 COL) \<and>
   permuteMatToHMatDofs hm4 (column_vector [1, 2, 3]) COL = Inl WrongNumberOfRows"
proof -
  have a: "mat_rows (column_vector [1, 2, 3 :: int]) \<noteq> numberOfDofs (clusterTreeOf hm4 COL)"
    by code_simp
  show ?thesis
    using a permuteMatToHMatDofs_wrong_rows[OF a] by blast
qed

subsection \<open>Initialisation\<close>

lemma initialize_loop_tree:
  "m_blockClusterTree (snd (initialize_loop c nodes hm)) = m_blockClusterTree hm"
  by (induction nodes arbitrary: hm) (auto split: sum.splits)

lemma initialize_loop_outcome:
  "fst (initialize_loop c nodes hm) =
     (if compressed_before_failure c nodes = nodes then None
      else (case c (nodes ! length (compressed_before_failure c nodes)) of
              Inl err \<Rightarrow> Some err | Inr nodeData \<Rightarrow> None))"
  by (induction nodes arbitrary: hm)
     (auto simp: compressed_before_failure_def split: sum.splits)

lemma initialize_loop_keys:
  "leaves_with_data (snd (initialize_loop c nodes hm)) =
     leaves_with_data hm \<union> set (compressed_before_failure c nodes)"
proof (induction nodes arbitrary: hm)
  case Nil
  then show ?case by (simp add: compressed_before_failure_def)
next
  case (Cons node nodes)
  show ?case
  proof (cases "c node")
    case (Inl err)
    then show ?thesis by (simp add: compressed_before_failure_def)
  next
    case (Inr nodeData)
    have "leaves_with_data (hm\<lparr>m_hMatrixData := AList.update node nodeData (m_hMatrixData hm)\<rparr>) =
            insert node (leaves_with_data hm)"
      by (simp add: leaves_with_data_def dom_update)
    then show ?thesis
      using Inr Cons.IH[of "hm\<lparr>m_hMatrixData := AList.update node nodeData (m_hMatrixData hm)\<rparr>"]
      by (simp add: compressed_before_failure_def)
  qed
qed

lemma initialize_loop_data:
  assumes "node \<in> set (compressed_before_failure c nodes)"
  shows "map_option Inr (map_of (m_hMatrixData (snd (initialize_loop c nodes hm))) node) =
           Some (c node)"
  using assms
proof (induction nodes arbitrary: hm)
  case Nil
  then show ?case by (simp add: compressed_before_failure_def)
next
  case (Cons n nodes)
  show ?case
  proof (cases "c n")
    case (Inl err)
    then show ?thesis using Cons.prems by (simp add: compressed_before_failure_def)
  next
    case (Inr nodeData)
    let ?hm = "hm\<lparr>m_hMatrixData := AList.update n nodeData (m_hMatrixData hm)\<rparr>"
    have step: "initialize_loop c (n # nodes) hm = initialize_loop c nodes ?hm"
      using Inr by simp
    show ?thesis
    proof (cases "node \<in> set (compressed_before_failure c nodes)")
      case True
      then show ?thesis unfolding step by (rule Cons.IH)
    next
      case False
      then have eq: "node = n" using Cons.prems Inr by (simp add: compressed_before_failure_def)
      have "node \<notin> set (compressed_before_failure c nodes)" by (rule False)
      have keep: "map_of (m_hMatrixData (snd (initialize_loop c nodes h))) k = map_of (m_hMatrixData h) k"
        if "k \<notin> set (compressed_before_failure c nodes)" for k and h :: "'a HMatrix"
        using that
      proof (induction nodes arbitrary: h)
        case Nil
        then show ?case by simp
      next
        case (Cons m ms)
        show ?case
        proof (cases "c m")
          case (Inl e)
          then show ?thesis by simp
        next
          case (Inr d)
          then have "k \<noteq> m" "k \<notin> set (compressed_before_failure c ms)"
            using Cons.prems by (auto simp: compressed_before_failure_def)
          then show ?thesis using Inr Cons.IH by (simp add: update_conv')
        qed
      qed
      have "map_of (m_hMatrixData (snd (initialize_loop c nodes ?hm))) node = Some nodeData"
        using keep[OF False, of ?hm] eq by (simp add: update_conv')
      then show ?thesis unfolding step using Inr eq by simp
    qed
  qed
qed

text \<open>
  Claim C4, as the code has it.  \<open>isInitialized()\<close> is true exactly when some leaf has
  block data.  \<open>initialize\<close> stores the block data of the leaves in the order of
  \<open>leafNodes()\<close> up to the first leaf the compressor fails on: when it fails on none,
  \<open>initialize\<close> returns normally and every leaf has its block data; when it fails, the
  error leaves \<open>initialize\<close>, and exactly the leaves before the failing one have block
  data, each the data the compressor gave.  So after \<open>initialize\<close> the matrix is
  initialized exactly when the compressor succeeded on the first leaf.
\<close>

theorem initialize_stores_leaves_before_failure:
  fixes hm :: "'a HMatrix" and c :: "'a HMatrixCompressor"
  defines "leaves \<equiv> leafNodes (m_blockClusterTree hm)"
  defines "hm' \<equiv> snd (initialize hm c)"
  shows "(isInitialized hm \<longleftrightarrow> leaves_with_data hm \<noteq> {}) \<and>
         leaves_with_data hm' = set (compressed_before_failure c leaves) \<and>
         (\<forall>node \<in> set (compressed_before_failure c leaves).
            map_option Inr (map_of (m_hMatrixData hm') node) = Some (c node)) \<and>
         (isInitialized hm' \<longleftrightarrow> compressed_before_failure c leaves \<noteq> []) \<and>
         fst (initialize hm c) =
           (if compressed_before_failure c leaves = leaves then None
            else (case c (leaves ! length (compressed_before_failure c leaves)) of
                    Inl err \<Rightarrow> Some err | Inr nodeData \<Rightarrow> None)) \<and>
         m_blockClusterTree hm' = m_blockClusterTree hm"
proof -
  have 1: "isInitialized hm \<longleftrightarrow> leaves_with_data hm \<noteq> {}"
    by (simp add: isInitialized_def leaves_with_data_def)
  have 2: "leaves_with_data hm' = set (compressed_before_failure c leaves)"
    unfolding hm'_def leaves_def initialize_def
    using initialize_loop_keys[of c "leafNodes (m_blockClusterTree hm)" "reset hm"]
    by (simp add: reset_def leaves_with_data_def)
  have 3: "\<forall>node \<in> set (compressed_before_failure c leaves).
            map_option Inr (map_of (m_hMatrixData hm') node) = Some (c node)"
    unfolding hm'_def leaves_def initialize_def
    using initialize_loop_data[of _ c "leafNodes (m_blockClusterTree (reset hm))" "reset hm"]
    by (simp add: reset_def)
  have "m_hMatrixData hm' = [] \<longleftrightarrow> leaves_with_data hm' = {}"
    by (simp add: leaves_with_data_def)
  then have 4: "isInitialized hm' \<longleftrightarrow> compressed_before_failure c leaves \<noteq> []"
    unfolding 2 by (simp add: isInitialized_def)
  have 5: "fst (initialize hm c) =
           (if compressed_before_failure c leaves = leaves then None
            else (case c (leaves ! length (compressed_before_failure c leaves)) of
                    Inl err \<Rightarrow> Some err | Inr nodeData \<Rightarrow> None))"
    unfolding leaves_def initialize_def by (rule initialize_loop_outcome)
  have 6: "m_blockClusterTree hm' = m_blockClusterTree hm"
    unfolding hm'_def initialize_def by (simp add: initialize_loop_tree reset_def)
  show ?thesis using 1 2 3 4 5 6 by blast
qed

theorem initialize_stores_leaves_before_failure_witness:
  "leaves_with_data (snd (initialize (HMatrix_ctor tree4) failing_compressor)) =
     {\<lparr>nodeId = 0, rowIndexRange = (0, 2), columnIndexRange = (0, 2), admissible = False\<rparr>} \<and>
   isInitialized (snd (initialize (HMatrix_ctor tree4) failing_compressor)) \<and>
   fst (initialize (HMatrix_ctor tree4) failing_compressor) = Some CompressionFailure"
proof -
  let ?hm = "HMatrix_ctor tree4 :: int HMatrix"
  have leaves: "leafNodes (m_blockClusterTree ?hm) = leafNodes tree4"
    by (simp add: HMatrix_ctor_def)
  have pre: "compressed_before_failure failing_compressor (leafNodes tree4) =
      [\<lparr>nodeId = 0, rowIndexRange = (0, 2), columnIndexRange = (0, 2), admissible = False\<rparr>]"
    by code_simp
  have nxt: "failing_compressor (leafNodes tree4 ! 1) = Inl CompressionFailure"
    by code_simp
  have ne: "[\<lparr>nodeId = 0, rowIndexRange = (0, 2), columnIndexRange = (0, 2), admissible = False\<rparr>]
      \<noteq> leafNodes tree4"
    by code_simp
  show ?thesis
    using initialize_stores_leaves_before_failure[of ?hm failing_compressor]
    unfolding leaves pre using nxt ne by simp
qed

text \<open>
  The claim as the spec words it fails on a compressor that fails on the second of the
  four leaves of \<open>tree4\<close>: the error leaves \<open>initialize\<close>, \<open>isInitialized()\<close> is
  true, and the third leaf has no block data.
\<close>

theorem isInitialized_after_failed_initialize:
  "fst (initialize (HMatrix_ctor tree4) failing_compressor) = Some CompressionFailure \<and>
   isInitialized (snd (initialize (HMatrix_ctor tree4) failing_compressor)) \<and>
   leafNodes tree4 ! 2 \<in> set (leafNodes (m_blockClusterTree
       (snd (initialize (HMatrix_ctor tree4) failing_compressor)))) \<and>
   map_of (m_hMatrixData (snd (initialize (HMatrix_ctor tree4) failing_compressor)))
     (leafNodes tree4 ! 2) = None"
  by code_simp

text \<open>
  Claim C8.  The constructor that takes a block cluster tree and a compressor returns a
  matrix exactly when constructing from the tree alone and then calling \<open>initialize\<close>
  with that compressor returns normally, and the matrix is the same one: so are its
  block data, \<open>isInitialized()\<close> and \<open>apply\<close>.  It throws an error exactly when that
  \<open>initialize\<close> throws it.
\<close>

theorem ctor_with_compressor_is_ctor_then_initialize:
  "(HMatrix_ctor_compressor t c = Inr hm \<longleftrightarrow> initialize (HMatrix_ctor t) c = (None, hm)) \<and>
   (HMatrix_ctor_compressor t c = Inl err \<longleftrightarrow>
      fst (initialize (HMatrix_ctor t) c) = Some err)"
  by (cases "initialize (HMatrix_ctor t) c")
     (auto simp: HMatrix_ctor_compressor_def split: option.splits)

theorem ctor_with_compressor_is_ctor_then_initialize_witness:
  "HMatrix_ctor_compressor tree4 (denseCompressor tree4 A4) = Inr hm4 \<and>
   initialize (HMatrix_ctor tree4) (denseCompressor tree4 A4) = (None, hm4) \<and>
   isInitialized hm4"
proof -
  have "fst (initialize (HMatrix_ctor tree4) (denseCompressor tree4 A4)) = None"
    by code_simp
  then have a: "initialize (HMatrix_ctor tree4) (denseCompressor tree4 A4) = (None, hm4)"
    unfolding hm4_def by (simp add: prod_eq_iff)
  have b: "isInitialized hm4"
    by code_simp
  show ?thesis
    using a b ctor_with_compressor_is_ctor_then_initialize[of tree4 "denseCompressor tree4 A4" hm4]
    by blast
qed

subsection \<open>Application\<close>

text \<open>
  Claim C6.  Two calls of \<open>apply\<close> with \<open>beta = 0\<close> that differ only in the contents of
  \<open>Y\<close> (the two \<open>Y\<close> have the same shape) end the same way and leave the same \<open>Y\<close>,
  for every matrix, \<open>X\<close>, transpose mode and \<open>alpha\<close>.
\<close>

theorem apply_beta_zero_ignores_Y:
  assumes "mat_rows Y1 = mat_rows Y2" and "mat_cols Y1 = mat_cols Y2"
  shows "HMatrix_apply hm X Y1 transMode alpha 0 = HMatrix_apply hm X Y2 transMode alpha 0"
proof -
  have "zeros Y1 = zeros Y2"
    using assms by (simp add: zeros_def)
  then show ?thesis
    unfolding HMatrix_apply_def by simp
qed

theorem apply_beta_zero_ignores_Y_witness:
  "mat_rows Y4 = mat_rows (zeros Y4) \<and> mat_cols Y4 = mat_cols (zeros Y4) \<and>
   Y4 \<noteq> zeros Y4 \<and>
   HMatrix_apply hm4 X4 Y4 TRANS 2 0 = HMatrix_apply hm4 X4 (zeros Y4) TRANS 2 0"
proof -
  have a: "mat_rows Y4 = mat_rows (zeros Y4)" by code_simp
  have b: "mat_cols Y4 = mat_cols (zeros Y4)" by code_simp
  have c: "Y4 \<noteq> zeros Y4" by code_simp
  show ?thesis
    using a b c apply_beta_zero_ignores_Y[OF a b, of hm4 X4 TRANS 2] by blast
qed

subsection \<open>The loop over the leaves\<close>

text \<open>
  For a matrix of at most one column the map over a row block is the row block: its
  cells are the rows of the range.
\<close>

lemma Map_block_one_column:
  assumes "mat_cols m \<le> 1" "fst r \<le> snd r" "snd r \<le> mat_rows m"
  shows "Map_block m r =
           Inr (Matrix_of (snd r - fst r) (mat_cols m) (\<lambda>i j. coeff m (fst r + i) j))"
proof -
  have "Matrix_of (snd r - fst r) (mat_cols m)
          (\<lambda>i j. cell m (fst r + i + j * (snd r - fst r))) =
        Matrix_of (snd r - fst r) (mat_cols m) (\<lambda>i j. coeff m (fst r + i) j)"
  proof (rule Matrix_of_cong)
    fix i j assume i: "i < snd r - fst r" and j: "j < mat_cols m"
    have j0: "j = 0" using j assms(1) by simp
    have lt: "fst r + i < mat_rows m" using i assms(3) by simp
    show "cell m (fst r + i + j * (snd r - fst r)) = coeff m (fst r + i) j"
      using lt by (simp add: cell_def j0)
  qed
  then show ?thesis
    using assms(2,3) by (simp add: Map_block_def)
qed

lemma write_Map_block_one_column:
  assumes "mat_cols m \<le> 1" "mat_cols b = mat_cols m" "start + mat_rows b \<le> mat_rows m"
  shows "write_Map_block m start b =
           Matrix_of (mat_rows m) (mat_cols m)
             (\<lambda>i j. if start \<le> i \<and> i < start + mat_rows b then coeff b (i - start) j
                    else coeff m i j)"
  unfolding write_Map_block_def
proof (rule Matrix_of_cong)
  fix i j assume i: "i < mat_rows m" and j: "j < mat_cols m"
  have j0: "j = 0" using j assms(1) by simp
  have c1: "mat_cols b = 1" using j assms(1,2) by simp
  show "(let c = cell_of m i j in
          if start \<le> c \<and> c < start + mat_rows b * mat_cols b
          then coeff b ((c - start) mod mat_rows b) ((c - start) div mat_rows b)
          else coeff m i j) =
        (if start \<le> i \<and> i < start + mat_rows b then coeff b (i - start) j else coeff m i j)"
  proof (cases "start \<le> i \<and> i < start + mat_rows b")
    case True
    then have "i - start < mat_rows b" by auto
    then show ?thesis
      using True by (simp add: cell_of_def j0 c1 Let_def)
  next
    case False
    then show ?thesis
      by (auto simp: cell_of_def j0 c1 Let_def)
  qed
qed

text \<open>
  Writing back through the map what was read through it changes nothing, for any number
  of columns.
\<close>

lemma write_Map_block_same:
  assumes ok: "Matrix_ok m" and r: "fst r \<le> snd r" "snd r \<le> mat_rows m"
  shows "write_Map_block m (fst r)
           (Matrix_of (snd r - fst r) (mat_cols m)
              (\<lambda>i j. cell m (fst r + i + j * (snd r - fst r)))) = m"
proof -
  let ?n = "snd r - fst r" and ?R = "mat_rows m" and ?c = "mat_cols m"
  let ?b = "Matrix_of ?n ?c (\<lambda>i j. cell m (fst r + i + j * ?n))"
  have "write_Map_block m (fst r) ?b = Matrix_of ?R ?c (coeff m)"
    unfolding write_Map_block_def
  proof (rule Matrix_of_cong)
    fix i j assume i: "i < ?R" and j: "j < ?c"
    let ?cc = "cell_of m i j"
    have here: "cell m ?cc = coeff m i j"
      using i by (simp add: cell_def cell_of_def)
    show "(let c = ?cc in
            if fst r \<le> c \<and> c < fst r + mat_rows ?b * mat_cols ?b
            then coeff ?b ((c - fst r) mod mat_rows ?b) ((c - fst r) div mat_rows ?b)
            else coeff m i j) = coeff m i j"
    proof (cases "fst r \<le> ?cc \<and> ?cc < fst r + ?n * ?c")
      case False
      then show ?thesis by (auto simp: Let_def)
    next
      case True
      let ?k = "?cc - fst r"
      have k: "?k < ?n * ?c" using True by auto
      then have npos: "0 < ?n" by (cases "?n = 0") auto
      have row: "?k mod ?n < ?n" using npos by simp
      have col: "?k div ?n < ?c"
        using k npos by (simp add: less_mult_imp_div_less mult.commute)
      have "coeff ?b (?k mod ?n) (?k div ?n) = cell m (fst r + ?k mod ?n + ?k div ?n * ?n)"
        using row col by simp
      also have "fst r + ?k mod ?n + ?k div ?n * ?n = fst r + ?k"
        using mod_div_mult_eq[of ?k ?n] by (simp only: add.assoc)
      also have "fst r + ?k = ?cc" using True by simp
      finally have "coeff ?b (?k mod ?n) (?k div ?n) = coeff m i j"
        using here by simp
      then show ?thesis using True by (simp add: Let_def)
    qed
  qed
  also have "\<dots> = m" using Matrix_ok_eq_Matrix_of[OF ok] by simp
  finally show ?thesis .
qed

lemma sum_list_upt_cong:
  assumes "\<And>k. k < n \<Longrightarrow> f k = g k"
  shows "sum_list (map f [0 ..< n]) = sum_list (map g [0 ..< n])"
proof -
  have "map f [0 ..< n] = map g [0 ..< n]"
    by (rule map_cong[OF refl]) (simp add: assms)
  then show ?thesis by (rule arg_cong)
qed

lemma HMatrixData_apply_accumulate:
  fixes d :: "('a::comm_ring_1) HMatrixData" and a :: "'a Matrix"
  assumes "a = op_mat transMode (HMatrixData_block d)"
    and "mat_cols a = mat_rows x" "mat_rows a = mat_rows y" "mat_cols x = mat_cols y"
  shows "HMatrixData_apply d x y transMode alpha 1 =
           Inr (Matrix_of (mat_rows y) (mat_cols y)
                  (\<lambda>i j. coeff y i j +
                     alpha * sum_list (map (\<lambda>k. coeff a i k * coeff x k j) [0 ..< mat_cols a])))"
proof (cases "alpha = 0")
  case True
  have "scale y 1 = Matrix_of (mat_rows y) (mat_cols y) (\<lambda>i j. coeff y i j + 0)"
    by (simp add: scale_def)
  then show ?thesis
    using assms True by (simp add: HMatrixData_apply_def Let_def)
next
  case False
  have "Matrix_of (mat_rows y) (mat_cols y)
          (\<lambda>i j. alpha * coeff (matmul a x) i j + coeff (scale y 1) i j) =
        Matrix_of (mat_rows y) (mat_cols y)
          (\<lambda>i j. coeff y i j +
             alpha * sum_list (map (\<lambda>k. coeff a i k * coeff x k j) [0 ..< mat_cols a]))"
  proof (rule Matrix_of_cong)
    fix i j assume i: "i < mat_rows y" and j: "j < mat_cols y"
    have 1: "coeff (matmul a x) i j =
        sum_list (map (\<lambda>k. coeff a i k * coeff x k j) [0 ..< mat_cols a])"
      using i j assms(3,4) by (simp add: matmul_def)
    have 2: "coeff (scale y 1) i j = coeff y i j"
      using i j by (simp add: scale_def)
    show "alpha * coeff (matmul a x) i j + coeff (scale y 1) i j =
          coeff y i j + alpha * sum_list (map (\<lambda>k. coeff a i k * coeff x k j) [0 ..< mat_cols a])"
      unfolding 1 2 by (simp add: add.commute)
  qed
  then show ?thesis
    using assms False by (simp add: HMatrixData_apply_def Let_def scale_def)
qed

lemma apply_leaves_accumulate:
  fixes yP :: "('a::comm_ring_1) Matrix"
  assumes "Matrix_ok yP" and "mat_cols xP = mat_cols yP"
    and "\<forall>elem \<in> set leaves. leaf_fits transMode (mat_rows xP) (mat_rows yP) elem"
    and "mat_cols yP \<le> 1"
  shows "apply_leaves transMode alpha xP leaves yP =
           Inr (Matrix_of (mat_rows yP) (mat_cols yP)
                  (\<lambda>i j. coeff yP i j +
                          sum_list (map (\<lambda>elem. leaf_term transMode alpha xP elem i j) leaves)))"
  using assms
proof (induction leaves arbitrary: yP)
  case Nil
  have "Matrix_of (mat_rows yP) (mat_cols yP) (\<lambda>i j. coeff yP i j + 0) = yP"
    using Matrix_ok_eq_Matrix_of[OF Nil.prems(1)] by simp
  then show ?case by simp
next
  case (Cons elem rest)
  let ?inR = "inputRangeOf transMode (fst elem)"
  let ?outR = "outputRangeOf transMode (fst elem)"
  let ?a = "op_mat transMode (HMatrixData_block (snd elem))"
  let ?c = "mat_cols yP" and ?R = "mat_rows yP"
  have cxy: "mat_cols xP = ?c" by (rule Cons.prems(2))
  have fits: "leaf_fits transMode (mat_rows xP) ?R elem" using Cons.prems(3) by simp
  have i_ok: "fst ?inR \<le> snd ?inR" "snd ?inR \<le> mat_rows xP"
    and o_ok: "fst ?outR \<le> snd ?outR" "snd ?outR \<le> ?R"
    and a_rows: "mat_rows ?a = snd ?outR - fst ?outR"
    and a_cols: "mat_cols ?a = snd ?inR - fst ?inR"
    using fits by (simp_all add: leaf_fits_def Let_def)
  let ?xb = "Matrix_of (snd ?inR - fst ?inR) (mat_cols xP) (\<lambda>i j. coeff xP (fst ?inR + i) j)"
  let ?yb = "Matrix_of (snd ?outR - fst ?outR) ?c (\<lambda>i j. coeff yP (fst ?outR + i) j)"
  have one: "?c \<le> 1" by (rule Cons.prems(4))
  have bx: "Map_block xP ?inR = Inr ?xb"
    using Map_block_one_column[OF _ i_ok] one cxy by simp
  have blk_y: "Map_block yP ?outR = Inr ?yb"
    using Map_block_one_column[OF one o_ok] by simp
  let ?yNew = "Matrix_of (mat_rows ?yb) (mat_cols ?yb)
                  (\<lambda>i j. coeff ?yb i j +
                     alpha * sum_list (map (\<lambda>k. coeff ?a i k * coeff ?xb k j) [0 ..< mat_cols ?a]))"
  have ap: "HMatrixData_apply (snd elem) ?xb ?yb transMode alpha 1 = Inr ?yNew"
    by (rule HMatrixData_apply_accumulate[OF refl]) (simp_all add: a_rows a_cols cxy)
  let ?yP' = "write_Map_block yP (fst ?outR) ?yNew"
  have wr: "?yP' = Matrix_of ?R ?c
      (\<lambda>i j. if fst ?outR \<le> i \<and> i < fst ?outR + mat_rows ?yNew
             then coeff ?yNew (i - fst ?outR) j else coeff yP i j)"
    by (rule write_Map_block_one_column[OF one]) (use o_ok in simp_all)
  have step: "apply_leaves transMode alpha xP (elem # rest) yP =
              apply_leaves transMode alpha xP rest ?yP'"
    using bx blk_y ap
    by (simp add: inputRangeOf_def outputRangeOf_def Let_def)
  have yP'_eq: "?yP' = Matrix_of ?R ?c (\<lambda>i j. coeff yP i j + leaf_term transMode alpha xP elem i j)"
    unfolding wr
  proof (rule Matrix_of_cong)
    fix i j assume i: "i < ?R" and j: "j < ?c"
    show "(if fst ?outR \<le> i \<and> i < fst ?outR + mat_rows ?yNew then coeff ?yNew (i - fst ?outR) j
           else coeff yP i j) = coeff yP i j + leaf_term transMode alpha xP elem i j"
    proof (cases "fst ?outR \<le> i \<and> i < snd ?outR")
      case True
      then have lt: "i - fst ?outR < snd ?outR - fst ?outR" by auto
      have idx: "fst ?outR + (i - fst ?outR) = i" using True by simp
      have s: "sum_list (map (\<lambda>k. coeff ?a (i - fst ?outR) k * coeff ?xb k j) [0 ..< mat_cols ?a]) =
               sum_list (map (\<lambda>k. coeff ?a (i - fst ?outR) k * coeff xP (fst ?inR + k) j)
                          [0 ..< snd ?inR - fst ?inR])"
        unfolding a_cols
        by (rule sum_list_upt_cong) (simp add: j cxy)
      have "coeff ?yNew (i - fst ?outR) j =
              coeff yP i j + alpha * sum_list (map (\<lambda>k. coeff ?a (i - fst ?outR) k * coeff xP (fst ?inR + k) j)
                          [0 ..< snd ?inR - fst ?inR])"
        using lt j s idx by simp
      then show ?thesis
        using True o_ok by (simp add: leaf_term_def Let_def)
    next
      case False
      then show ?thesis
        using o_ok by (auto simp: leaf_term_def Let_def)
    qed
  qed
  have rows': "mat_rows ?yP' = ?R" and cols': "mat_cols ?yP' = ?c"
    by (simp_all add: write_Map_block_def)
  have ok': "Matrix_ok ?yP'" by (simp add: write_Map_block_def)
  have one': "mat_cols ?yP' \<le> 1" using one cols' by simp
  have c': "mat_cols xP = mat_cols ?yP'" using cxy cols' by simp
  have f': "\<forall>e \<in> set rest. leaf_fits transMode (mat_rows xP) (mat_rows ?yP') e"
    using Cons.prems(3) rows' by simp
  have "apply_leaves transMode alpha xP rest ?yP' =
          Inr (Matrix_of ?R ?c
                 (\<lambda>i j. coeff ?yP' i j +
                         sum_list (map (\<lambda>e. leaf_term transMode alpha xP e i j) rest)))"
    using Cons.IH[OF ok' c' f' one'] unfolding rows' cols' .
  also have "Matrix_of ?R ?c
                 (\<lambda>i j. coeff ?yP' i j +
                         sum_list (map (\<lambda>e. leaf_term transMode alpha xP e i j) rest)) =
             Matrix_of ?R ?c
                 (\<lambda>i j. coeff yP i j +
                         sum_list (map (\<lambda>e. leaf_term transMode alpha xP e i j) (elem # rest)))"
  proof (rule Matrix_of_cong)
    fix i j assume i: "i < ?R" and j: "j < ?c"
    have "coeff ?yP' i j = coeff yP i j + leaf_term transMode alpha xP elem i j"
      unfolding yP'_eq using i j by simp
    then show "coeff ?yP' i j + sum_list (map (\<lambda>e. leaf_term transMode alpha xP e i j) rest) =
          coeff yP i j + sum_list (map (\<lambda>e. leaf_term transMode alpha xP e i j) (elem # rest))"
      by (simp add: add.assoc)
  qed
  finally show ?case unfolding step .
qed

subsection \<open>Sums over the leaves of a tiling\<close>

lemma sum_list_upt_sum: "sum_list (map f [0 ..< n]) = (\<Sum>k<n. f k)"
  by (simp add: interv_sum_list_conv_sum_set_nat atLeast0LessThan)

lemma sum_shift_range:
  fixes F :: "nat \<Rightarrow> 'a::comm_monoid_add"
  assumes "c0 \<le> c1" "c1 \<le> C"
  shows "(\<Sum>q<c1 - c0. F (c0 + q)) = (\<Sum>m<C. if c0 \<le> m \<and> m < c1 then F m else 0)"
proof -
  have "(\<Sum>q<c1 - c0. F (c0 + q)) = (\<Sum>q = 0..<c1 - c0. F (q + c0))"
    by (simp add: atLeast0LessThan add.commute)
  also have "\<dots> = sum F {0 + c0 ..< (c1 - c0) + c0}"
    by (rule sum.shift_bounds_nat_ivl[symmetric])
  also have "\<dots> = sum F {c0 ..< c1}"
    using assms by simp
  also have "\<dots> = sum F ({..<C} \<inter> {m. c0 \<le> m \<and> m < c1})"
    using assms by (intro arg_cong[where f="sum F"]) auto
  also have "\<dots> = (\<Sum>m<C. if c0 \<le> m \<and> m < c1 then F m else 0)"
    by (simp add: sum.inter_restrict)
  finally show ?thesis .
qed

lemma sum_list_sum_swap:
  fixes g :: "'b \<Rightarrow> nat \<Rightarrow> 'a::comm_monoid_add"
  shows "sum_list (map (\<lambda>x. \<Sum>m\<in>S. g x m) xs) = (\<Sum>m\<in>S. sum_list (map (\<lambda>x. g x m) xs))"
  by (induction xs) (simp_all add: sum.distrib)

lemma sum_list_if_count:
  fixes v :: "'a::comm_ring_1"
  shows "sum_list (map (\<lambda>x. if P x then v else 0) xs) = of_nat (length (filter P xs)) * v"
  by (induction xs) (simp_all add: algebra_simps)

lemma filter_length_same_set:
  assumes "distinct xs" "distinct ys" "set xs = set ys"
  shows "length (filter P xs) = length (filter P ys)"
  using assms by (simp add: distinct_length_filter)

lemma ClusterTree_ok_bij:
  assumes "ClusterTree_ok ct"
  shows "bij_betw (mapHMatDofToOriginalDof ct) {..<numberOfDofs ct} {..<numberOfDofs ct}"
  by (rule bij_betw_byWitness[where f' = "mapOriginalDofToHMatDof ct"])
     (use assms in \<open>auto simp: ClusterTree_ok_def\<close>)

lemma tiled_row_sum:
  fixes F :: "nat \<Rightarrow> 'a::comm_ring_1"
  assumes tile: "\<forall>m<C. length (filter (\<lambda>node. covers node p m) nodes) = 1"
    and inside: "\<forall>node \<in> set nodes.
           fst (columnIndexRange node) \<le> snd (columnIndexRange node) \<and>
           snd (columnIndexRange node) \<le> C"
  shows "sum_list (map (\<lambda>node.
            if fst (rowIndexRange node) \<le> p \<and> p < snd (rowIndexRange node)
            then (\<Sum>q<snd (columnIndexRange node) - fst (columnIndexRange node).
                    F (fst (columnIndexRange node) + q))
            else 0) nodes) = (\<Sum>m<C. F m)"
proof -
  have "map (\<lambda>node.
            if fst (rowIndexRange node) \<le> p \<and> p < snd (rowIndexRange node)
            then (\<Sum>q<snd (columnIndexRange node) - fst (columnIndexRange node).
                    F (fst (columnIndexRange node) + q))
            else 0) nodes =
        map (\<lambda>node. \<Sum>m<C. if covers node p m then F m else 0) nodes"
  proof (rule map_cong[OF refl])
    fix node assume n: "node \<in> set nodes"
    have r: "fst (columnIndexRange node) \<le> snd (columnIndexRange node)"
      "snd (columnIndexRange node) \<le> C"
      using inside n by auto
    show "(if fst (rowIndexRange node) \<le> p \<and> p < snd (rowIndexRange node)
            then (\<Sum>q<snd (columnIndexRange node) - fst (columnIndexRange node).
                    F (fst (columnIndexRange node) + q))
            else 0) = (\<Sum>m<C. if covers node p m then F m else 0)"
    proof (cases "fst (rowIndexRange node) \<le> p \<and> p < snd (rowIndexRange node)")
      case True
      then show ?thesis
        using sum_shift_range[OF r, of F] by (simp add: covers_def)
    next
      case False
      then show ?thesis by (auto simp: covers_def)
    qed
  qed
  then have "sum_list (map (\<lambda>node.
            if fst (rowIndexRange node) \<le> p \<and> p < snd (rowIndexRange node)
            then (\<Sum>q<snd (columnIndexRange node) - fst (columnIndexRange node).
                    F (fst (columnIndexRange node) + q))
            else 0) nodes) =
        sum_list (map (\<lambda>node. \<Sum>m<C. if covers node p m then F m else 0) nodes)"
    by (rule arg_cong)
  also have "\<dots> = (\<Sum>m<C. sum_list (map (\<lambda>node. if covers node p m then F m else 0) nodes))"
    by (rule sum_list_sum_swap)
  also have "\<dots> = (\<Sum>m<C. of_nat (length (filter (\<lambda>node. covers node p m) nodes)) * F m)"
    by (simp add: sum_list_if_count)
  also have "\<dots> = (\<Sum>m<C. F m)"
    by (rule sum.cong) (use tile in auto)
  finally show ?thesis .
qed

subsection \<open>Application of exact dense blocks\<close>

lemma dense_leaves_row_sum:
  fixes hm :: "('a::comm_ring_1) HMatrix"
  assumes tree: "BlockClusterTree_ok (m_blockClusterTree hm)"
    and dense: "holds_exact_dense_blocks hm A"
    and X: "mat_rows X = HMatrix_columns hm"
    and p: "p < HMatrix_rows hm" and j: "j < mat_cols X"
  defines "t \<equiv> m_blockClusterTree hm"
  defines "xP \<equiv> Matrix_of (mat_rows X) (mat_cols X)
                  (\<lambda>q j. coeff X (mapHMatDofToOriginalDof (columnClusterTree t) q) j)"
  shows "sum_list (map (\<lambda>elem. leaf_term NOTRANS 1 xP elem p j) (m_hMatrixData hm)) =
           (\<Sum>m<HMatrix_columns hm.
              coeff A (mapHMatDofToOriginalDof (rowClusterTree t) p) m * coeff X m j)"
proof -
  let ?C = "HMatrix_columns hm" and ?R = "HMatrix_rows hm"
  let ?hr = "mapHMatDofToOriginalDof (rowClusterTree t)"
  let ?hc = "mapHMatDofToOriginalDof (columnClusterTree t)"
  let ?F = "\<lambda>m. coeff A (?hr p) (?hc m) * coeff X (?hc m) j"
  let ?keys = "map fst (m_hMatrixData hm)"
  have C: "?C = numberOfDofs (columnClusterTree t)" and R: "?R = numberOfDofs (rowClusterTree t)"
    by (simp_all add: HMatrix_columns_def HMatrix_rows_def t_def)
  have ct_ok: "ClusterTree_ok (columnClusterTree t)"
    using tree by (simp add: BlockClusterTree_ok_def t_def)
  have keys_set: "set ?keys = set (leafNodes t)" and keys_distinct: "distinct ?keys"
    using dense by (simp_all add: holds_exact_dense_blocks_def t_def)
  have leaves_distinct: "distinct (leafNodes t)"
    using tree by (simp add: BlockClusterTree_ok_def t_def)
  have inside: "ranges_inside t node" if "node \<in> set ?keys" for node
    using tree that keys_set by (simp add: BlockClusterTree_ok_def t_def)
  have term_eq: "leaf_term NOTRANS 1 xP elem p j =
      (if fst (rowIndexRange (fst elem)) \<le> p \<and> p < snd (rowIndexRange (fst elem))
       then (\<Sum>q<snd (columnIndexRange (fst elem)) - fst (columnIndexRange (fst elem)).
               ?F (fst (columnIndexRange (fst elem)) + q))
       else 0)"
    if el: "elem \<in> set (m_hMatrixData hm)" for elem
  proof (cases "fst (rowIndexRange (fst elem)) \<le> p \<and> p < snd (rowIndexRange (fst elem))")
    case False
    then show ?thesis
      by (auto simp: leaf_term_def outputRangeOf_def Let_def)
  next
    case True
    let ?node = "fst elem"
    let ?r0 = "fst (rowIndexRange ?node)" and ?r1 = "snd (rowIndexRange ?node)"
    let ?c0 = "fst (columnIndexRange ?node)" and ?c1 = "snd (columnIndexRange ?node)"
    have d: "snd elem = DenseData (exact_block t A ?node)"
      using dense el by (simp add: holds_exact_dense_blocks_def t_def)
    have ins: "ranges_inside t ?node" using inside el by simp
    then have c1: "?c1 \<le> ?C" and c01: "?c0 \<le> ?c1"
      by (simp_all add: ranges_inside_def C)
    have pr: "p - ?r0 < ?r1 - ?r0" and pb: "?r0 + (p - ?r0) = p" using True by auto
    have "sum_list (map (\<lambda>k. coeff (exact_block t A ?node) (p - ?r0) k * coeff xP (?c0 + k) j)
                    [0 ..< ?c1 - ?c0]) =
          sum_list (map (\<lambda>k. ?F (?c0 + k)) [0 ..< ?c1 - ?c0])"
    proof (rule sum_list_upt_cong)
      fix k assume k: "k < ?c1 - ?c0"
      then have kc: "?c0 + k < mat_rows X" using c1 X by simp
      have 1: "coeff (exact_block t A ?node) (p - ?r0) k = coeff A (?hr p) (?hc (?c0 + k))"
        using pr k pb by (simp add: exact_block_def)
      have 2: "coeff xP (?c0 + k) j = coeff X (?hc (?c0 + k)) j"
        using kc j by (simp add: xP_def)
      show "coeff (exact_block t A ?node) (p - ?r0) k * coeff xP (?c0 + k) j = ?F (?c0 + k)"
        unfolding 1 2 ..
    qed
    then show ?thesis
      using True d
      by (simp add: leaf_term_def outputRangeOf_def inputRangeOf_def Let_def op_mat_def
          sum_list_upt_sum)
  qed
  have "sum_list (map (\<lambda>elem. leaf_term NOTRANS 1 xP elem p j) (m_hMatrixData hm)) =
        sum_list (map (\<lambda>elem.
          (if fst (rowIndexRange (fst elem)) \<le> p \<and> p < snd (rowIndexRange (fst elem))
           then (\<Sum>q<snd (columnIndexRange (fst elem)) - fst (columnIndexRange (fst elem)).
               ?F (fst (columnIndexRange (fst elem)) + q))
           else 0)) (m_hMatrixData hm))"
    by (rule arg_cong[where f = sum_list], rule map_cong[OF refl]) (rule term_eq)
  also have "\<dots> = sum_list (map (\<lambda>node.
          (if fst (rowIndexRange node) \<le> p \<and> p < snd (rowIndexRange node)
           then (\<Sum>q<snd (columnIndexRange node) - fst (columnIndexRange node).
               ?F (fst (columnIndexRange node) + q))
           else 0)) ?keys)"
    by (simp add: comp_def)
  also have "\<dots> = (\<Sum>m<?C. ?F m)"
  proof (rule tiled_row_sum)
    show "\<forall>m<?C. length (filter (\<lambda>node. covers node p m) ?keys) = 1"
    proof (intro allI impI)
      fix m assume m: "m < ?C"
      have "length (filter (\<lambda>node. covers node p m) ?keys) =
            length (filter (\<lambda>node. covers node p m) (leafNodes t))"
        by (rule filter_length_same_set[OF keys_distinct leaves_distinct keys_set])
      also have "\<dots> = 1"
        using tree p m by (simp add: BlockClusterTree_ok_def t_def R C)
      finally show "length (filter (\<lambda>node. covers node p m) ?keys) = 1" .
    qed
  next
    show "\<forall>node \<in> set ?keys. fst (columnIndexRange node) \<le> snd (columnIndexRange node) \<and>
           snd (columnIndexRange node) \<le> ?C"
      using inside by (simp add: ranges_inside_def C)
  qed
  also have "\<dots> = (\<Sum>m<?C. coeff A (?hr p) m * coeff X m j)"
    unfolding C
    by (rule sum.reindex_bij_betw[OF ClusterTree_ok_bij[OF ct_ok],
          of "\<lambda>m. coeff A (?hr p) m * coeff X m j"])
  finally show ?thesis .
qed

text \<open>
  With a well-formed block cluster tree, exact dense blocks of an operator \<open>A\<close> and an
  \<open>X\<close> of at most one column, \<open>apply(X, Y, NOTRANS, 1, 0)\<close> leaves in \<open>Y\<close> the product
  of \<open>A\<close> with \<open>X\<close>: over one column the map of a row block is the row block.
\<close>

lemma apply_dense_NOTRANS_one_column:
  fixes hm :: "('a::comm_ring_1) HMatrix"
  assumes tree: "BlockClusterTree_ok (m_blockClusterTree hm)"
    and dense: "holds_exact_dense_blocks hm A"
    and A: "mat_rows A = HMatrix_rows hm" "mat_cols A = HMatrix_columns hm"
    and X: "Matrix_ok X" "mat_rows X = HMatrix_columns hm"
    and Y: "mat_rows Y = HMatrix_rows hm" "mat_cols Y = mat_cols X"
    and one: "mat_cols X \<le> 1"
  shows "HMatrix_apply hm X Y NOTRANS 1 0 = (None, matmul A X)"
proof -
  let ?t = "m_blockClusterTree hm"
  let ?R = "HMatrix_rows hm" and ?C = "HMatrix_columns hm" and ?k = "mat_cols X"
  let ?hr = "mapHMatDofToOriginalDof (rowClusterTree ?t)"
  let ?hc = "mapHMatDofToOriginalDof (columnClusterTree ?t)"
  let ?or = "mapOriginalDofToHMatDof (rowClusterTree ?t)"
  have C: "?C = numberOfDofs (columnClusterTree ?t)" and R: "?R = numberOfDofs (rowClusterTree ?t)"
    by (simp_all add: HMatrix_columns_def HMatrix_rows_def)
  have rt_ok: "ClusterTree_ok (clusterTreeOf hm ROW)" and ct_ok: "ClusterTree_ok (clusterTreeOf hm COL)"
    using tree by (simp_all add: BlockClusterTree_ok_def clusterTreeOf_def)
  have row_maps: "?or i < ?R \<and> ?hr (?or i) = i" "?hr i < ?R" if "i < ?R" for i
    using tree that by (simp_all add: BlockClusterTree_ok_def ClusterTree_ok_def R)
  \<comment> \<open>step 1: scaling\<close>
  let ?Y1 = "zeros Y"
  have Y1: "?Y1 = Matrix_of ?R ?k (\<lambda>i j. 0)"
    using Y by (simp add: zeros_def)
  \<comment> \<open>step 2: permutation into the hierarchical ordering\<close>
  let ?xP = "Matrix_of (mat_rows X) ?k (\<lambda>q j. coeff X (?hc q) j)"
  have xP: "permuteMatToHMatDofs hm X COL = Inr ?xP"
    using permuteMatToHMatDofs_ok[OF ct_ok X(1)] X(2)
    by (simp add: clusterTreeOf_def C)
  let ?yP = "Matrix_of ?R ?k (\<lambda>q j. coeff ?Y1 (?hr q) j)"
  have yP: "permuteMatToHMatDofs hm ?Y1 ROW = Inr ?yP"
    using permuteMatToHMatDofs_ok[OF rt_ok, of ?Y1] Y
    by (simp add: clusterTreeOf_def R zeros_def)
  \<comment> \<open>step 3: the leaves\<close>
  have fits: "\<forall>elem \<in> set (m_hMatrixData hm). leaf_fits NOTRANS (mat_rows ?xP) (mat_rows ?yP) elem"
  proof
    fix elem assume el: "elem \<in> set (m_hMatrixData hm)"
    have d: "snd elem = DenseData (exact_block ?t A (fst elem))"
      using dense el by (simp add: holds_exact_dense_blocks_def)
    have "fst elem \<in> set (leafNodes ?t)"
      using dense el by (auto simp: holds_exact_dense_blocks_def)
    then have "ranges_inside ?t (fst elem)"
      using tree by (simp add: BlockClusterTree_ok_def)
    then show "leaf_fits NOTRANS (mat_rows ?xP) (mat_rows ?yP) elem"
      using d X(2)
      by (simp add: leaf_fits_def ranges_inside_def inputRangeOf_def outputRangeOf_def
          op_mat_def exact_block_def Let_def R C)
  qed
  let ?acc = "Matrix_of ?R ?k
      (\<lambda>i j. coeff ?yP i j +
              sum_list (map (\<lambda>elem. leaf_term NOTRANS 1 ?xP elem i j) (m_hMatrixData hm)))"
  have acc: "apply_leaves NOTRANS 1 ?xP (m_hMatrixData hm) ?yP = Inr ?acc"
    using apply_leaves_accumulate[OF Matrix_of_ok _ fits, of 1] one by simp
  \<comment> \<open>step 4: permutation back\<close>
  let ?Ynew = "Matrix_of ?R ?k (\<lambda>i j. coeff ?acc (?or i) j)"
  have perm_back: "permuteMatToOriginalDofs hm ?acc ROW = Inr ?Ynew"
    using permuteMatToOriginalDofs_ok[OF rt_ok, of ?acc]
    by (simp add: clusterTreeOf_def R)
  have result: "?Ynew = matmul A X"
    unfolding matmul_def A
  proof (rule Matrix_of_cong)
    fix i j assume i: "i < ?R" and j: "j < ?k"
    let ?p = "?or i"
    have p: "?p < ?R" and inv: "?hr ?p = i" using row_maps(1)[OF i] by simp_all
    have zero: "coeff ?yP ?p j = 0"
      using p j row_maps(2)[OF p] by (simp add: Y1)
    have "coeff ?acc ?p j =
            sum_list (map (\<lambda>elem. leaf_term NOTRANS 1 ?xP elem ?p j) (m_hMatrixData hm))"
      using p j zero by simp
    also have "\<dots> = (\<Sum>m<?C. coeff A (?hr ?p) m * coeff X m j)"
      by (rule dense_leaves_row_sum[OF tree dense X(2) p j])
    finally show "coeff ?acc ?p j = sum_list (map (\<lambda>m. coeff A i m * coeff X m j) [0 ..< ?C])"
      unfolding inv by (simp add: sum_list_upt_sum)
  qed
  show ?thesis
    unfolding HMatrix_apply_def Let_def
    using xP yP acc perm_back result by simp
qed

text \<open>The sample matrix \<open>hm4\<close> is well-formed, holds the exact dense blocks of \<open>A4\<close>,
  and \<open>X4\<close> and \<open>Y4\<close> fit it.\<close>

lemma hm4_well_formed:
  "BlockClusterTree_ok (m_blockClusterTree hm4) \<and>
   holds_exact_dense_blocks hm4 A4 \<and>
   mat_rows A4 = HMatrix_rows hm4 \<and> mat_cols A4 = HMatrix_columns hm4 \<and>
   Matrix_ok X4 \<and> mat_rows X4 = HMatrix_columns hm4 \<and>
   Matrix_ok Y4 \<and> mat_rows Y4 = HMatrix_rows hm4 \<and> mat_cols Y4 = mat_cols X4"
  by code_simp

text \<open>
  Claim C1, at an input where the code departs from it.  The matrix \<open>hm4\<close> holds the
  exact dense blocks of the 4 by 4 operator \<open>A4\<close> in four leaves of two rows each.  For
  the two-column \<open>X4\<close>, \<open>apply(X4, Y4, NOTRANS, 1, 0)\<close> returns normally and leaves
  \<open>[[1, 0], [19, -2], [17, 0], [43, -10]]\<close> in \<open>Y\<close>; the dense product of \<open>A4\<close> with
  \<open>X4\<close> is \<open>[[7, 11], [19, 23], [31, 35], [43, 47]]\<close>.  The map over a row block of two
  of the four rows takes its second column from the cells that follow its first column
  in memory, which are the other rows of the first column.
\<close>

theorem apply_dense_NOTRANS_two_columns:
  "HMatrix_apply hm4 X4 Y4 NOTRANS 1 0 =
     (None, \<lparr>mat_rows = 4, mat_cols = 2,
              coeffs = [[1, 0], [19, - 2], [17, 0], [43, - 10]]\<rparr>) \<and>
   matmul A4 X4 =
     \<lparr>mat_rows = 4, mat_cols = 2, coeffs = [[7, 11], [19, 23], [31, 35], [43, 47]]\<rparr>"
  by code_simp

text \<open>On the first column of \<open>X4\<close> alone the same call leaves the dense product.\<close>

lemma apply_dense_NOTRANS_first_column:
  "HMatrix_apply hm4 (column_vector [1, 0, 2, 0]) (column_vector [7, 7, 7, 7]) NOTRANS 1 0 =
     (None, column_vector [7, 19, 31, 43]) \<and>
   matmul A4 (column_vector [1, 0, 2, 0]) = column_vector [7, 19, 31, 43]"
  by code_simp

subsection \<open>The transposed application\<close>

text \<open>
  Without transposition and with \<open>alpha = 0\<close>, \<open>apply\<close> leaves \<open>beta\<close> times the old
  \<open>Y\<close>, for every matrix whose block data fit their leaves and for any number of
  columns: each leaf writes back what it read, and \<open>Y\<close> is permuted with the row
  cluster tree and permuted back with it.
\<close>

lemma apply_leaves_alpha_zero:
  fixes yP :: "('a::comm_ring_1) Matrix"
  assumes "Matrix_ok yP" and "mat_cols xP = mat_cols yP"
    and "\<forall>elem \<in> set leaves. leaf_fits transMode (mat_rows xP) (mat_rows yP) elem"
  shows "apply_leaves transMode 0 xP leaves yP = Inr yP"
  using assms(3)
proof (induction leaves)
  case Nil
  show ?case by simp
next
  case (Cons elem rest)
  let ?inR = "inputRangeOf transMode (fst elem)"
  let ?outR = "outputRangeOf transMode (fst elem)"
  let ?a = "op_mat transMode (HMatrixData_block (snd elem))"
  have fits: "leaf_fits transMode (mat_rows xP) (mat_rows yP) elem" using Cons.prems by simp
  have i_ok: "fst ?inR \<le> snd ?inR" "snd ?inR \<le> mat_rows xP"
    and o_ok: "fst ?outR \<le> snd ?outR" "snd ?outR \<le> mat_rows yP"
    and a_rows: "mat_rows ?a = snd ?outR - fst ?outR"
    and a_cols: "mat_cols ?a = snd ?inR - fst ?inR"
    using fits by (simp_all add: leaf_fits_def Let_def)
  let ?xb = "Matrix_of (snd ?inR - fst ?inR) (mat_cols xP)
               (\<lambda>i j. cell xP (fst ?inR + i + j * (snd ?inR - fst ?inR)))"
  let ?yb = "Matrix_of (snd ?outR - fst ?outR) (mat_cols yP)
               (\<lambda>i j. cell yP (fst ?outR + i + j * (snd ?outR - fst ?outR)))"
  have bx: "Map_block xP ?inR = Inr ?xb" using i_ok by (simp add: Map_block_def)
  have blk_y: "Map_block yP ?outR = Inr ?yb" using o_ok by (simp add: Map_block_def)
  have same: "scale ?yb 1 = ?yb"
    unfolding scale_def Matrix_of_rows Matrix_of_cols
    by (rule Matrix_of_cong) simp
  have ap: "HMatrixData_apply (snd elem) ?xb ?yb transMode 0 1 = Inr ?yb"
    using a_rows a_cols assms(2) same by (simp add: HMatrixData_apply_def Let_def)
  have wr: "write_Map_block yP (fst ?outR) ?yb = yP"
    by (rule write_Map_block_same[OF assms(1) o_ok])
  have "apply_leaves transMode 0 xP (elem # rest) yP = apply_leaves transMode 0 xP rest yP"
    using bx blk_y ap wr by (simp add: inputRangeOf_def outputRangeOf_def Let_def)
  also have "\<dots> = Inr yP" using Cons.IH Cons.prems by simp
  finally show ?case .
qed

lemma apply_NOTRANS_alpha_zero:
  fixes hm :: "('a::comm_ring_1) HMatrix"
  assumes rt_ok: "ClusterTree_ok (clusterTreeOf hm ROW)"
    and ct_ok: "ClusterTree_ok (clusterTreeOf hm COL)"
    and fits: "\<forall>elem \<in> set (m_hMatrixData hm).
                 leaf_fits NOTRANS (HMatrix_columns hm) (HMatrix_rows hm) elem"
    and X: "Matrix_ok X" "mat_rows X = HMatrix_columns hm"
    and Y: "Matrix_ok Y" "mat_rows Y = HMatrix_rows hm" "mat_cols Y = mat_cols X"
  shows "HMatrix_apply hm X Y NOTRANS 0 beta = (None, scale Y beta)"
proof -
  let ?t = "m_blockClusterTree hm"
  let ?R = "HMatrix_rows hm" and ?C = "HMatrix_columns hm" and ?k = "mat_cols X"
  let ?hr = "mapHMatDofToOriginalDof (rowClusterTree ?t)"
  let ?hc = "mapHMatDofToOriginalDof (columnClusterTree ?t)"
  let ?or = "mapOriginalDofToHMatDof (rowClusterTree ?t)"
  have C: "?C = numberOfDofs (clusterTreeOf hm COL)" and R: "?R = numberOfDofs (clusterTreeOf hm ROW)"
    by (simp_all add: HMatrix_columns_def HMatrix_rows_def clusterTreeOf_def)
  have row_maps: "?or i < ?R \<and> ?hr (?or i) = i" if "i < ?R" for i
    using rt_ok that by (simp add: ClusterTree_ok_def R) (simp add: clusterTreeOf_def)
  let ?Y1 = "if beta = 0 then zeros Y else scale Y beta"
  have Y1: "?Y1 = scale Y beta"
    by (simp add: zeros_def scale_def)
  have Y1_ok: "Matrix_ok (scale Y beta)" and Y1_rows: "mat_rows (scale Y beta) = ?R"
    and Y1_cols: "mat_cols (scale Y beta) = ?k"
    using Y by (simp_all add: scale_def)
  let ?xP = "Matrix_of (mat_rows X) ?k (\<lambda>q j. coeff X (?hc q) j)"
  have xP: "permuteMatToHMatDofs hm X COL = Inr ?xP"
    using permuteMatToHMatDofs_ok[OF ct_ok X(1)] X(2) C
    by (simp add: clusterTreeOf_def)
  let ?yP = "Matrix_of ?R ?k (\<lambda>q j. coeff (scale Y beta) (?hr q) j)"
  have yP: "permuteMatToHMatDofs hm (scale Y beta) ROW = Inr ?yP"
    using permuteMatToHMatDofs_ok[OF rt_ok Y1_ok] Y1_rows Y1_cols R
    by (simp add: clusterTreeOf_def)
  have fits': "\<forall>elem \<in> set (m_hMatrixData hm). leaf_fits NOTRANS (mat_rows ?xP) (mat_rows ?yP) elem"
    using fits X(2) by simp
  have acc: "apply_leaves NOTRANS 0 ?xP (m_hMatrixData hm) ?yP = Inr ?yP"
    by (rule apply_leaves_alpha_zero[OF Matrix_of_ok _ fits']) simp
  have "permuteMatToOriginalDofs hm ?yP ROW = Inr (Matrix_of ?R ?k (\<lambda>i j. coeff ?yP (?or i) j))"
    using permuteMatToOriginalDofs_ok[OF rt_ok, of ?yP] R
    by (simp add: clusterTreeOf_def)
  also have "Matrix_of ?R ?k (\<lambda>i j. coeff ?yP (?or i) j) =
             Matrix_of ?R ?k (coeff (scale Y beta))"
    by (rule Matrix_of_cong) (use row_maps in simp)
  also have "\<dots> = scale Y beta"
    using Matrix_ok_eq_Matrix_of[OF Y1_ok] Y1_rows Y1_cols by simp
  finally have perm_back: "permuteMatToOriginalDofs hm ?yP ROW = Inr (scale Y beta)" .
  show ?thesis
    unfolding HMatrix_apply_def Let_def Y1
    using xP yP acc perm_back by simp
qed


text \<open>The sample matrix \<open>hm2\<close> is well-formed and holds the exact dense block of \<open>A2\<close>.\<close>

lemma hm2_tree: "m_blockClusterTree hm2 = tree2"
  by (simp add: hm2_def initialize_def initialize_loop_tree reset_def HMatrix_ctor_def)

lemma hm2_well_formed:
  "BlockClusterTree_ok tree2 \<and> holds_exact_dense_blocks hm2 A2 \<and> isInitialized hm2 \<and>
   Matrix_ok A2"
  by code_simp

lemma hm2T_well_formed:
  "BlockClusterTree_ok tree2T \<and> holds_exact_dense_blocks hm2T (transpose_mat A2) \<and>
   isInitialized hm2T"
  by code_simp

text \<open>
  Claim C2, at an input where the code departs from it.  The matrix \<open>hm2\<close> holds the
  exact dense block of \<open>A2 = [[1, 2], [3, 4]]\<close> over a row cluster tree that keeps the
  order and a column cluster tree that swaps the two indices.  With \<open>TRANS\<close>,
  \<open>alpha = 1\<close>, \<open>beta = 0\<close> and \<open>X = (1, 0)\<close>, \<open>apply\<close> leaves \<open>Y = (2, 1)\<close>; the transposed
  dense operator times \<open>X\<close> is \<open>(1, 2)\<close>, and so is what \<open>apply\<close> without transposition
  leaves for the matrix \<open>hm2T\<close> of the transposed operator.  The last step of \<open>apply\<close> permutes back with
  the row cluster tree whatever the transpose mode is.
\<close>

theorem apply_TRANS_permutes_back_by_rows:
  "HMatrix_apply hm2 (column_vector [1, 0]) (column_vector [0, 0]) TRANS 1 0 =
     (None, column_vector [2, 1]) \<and>
   matmul (transpose_mat A2) (column_vector [1, 0]) = column_vector [1, 2] \<and>
   HMatrix_apply hm2T (column_vector [1, 0]) (column_vector [0, 0]) NOTRANS 1 0 =
     (None, column_vector [1, 2])"
  by code_simp

text \<open>
  Claim C7, at an input where the code departs from it.  On the same matrix, with
  \<open>TRANS\<close>, \<open>alpha = 0\<close>, \<open>beta = 1\<close> and \<open>Y = (5, 7)\<close>, \<open>apply\<close> leaves \<open>Y = (7, 5)\<close>,
  while \<open>beta\<close> times the old \<open>Y\<close> is \<open>(5, 7)\<close>.
\<close>

theorem apply_TRANS_alpha_zero_reorders_Y:
  "HMatrix_apply hm2 (column_vector [1, 0]) (column_vector [5, 7]) TRANS 0 1 =
     (None, column_vector [7, 5]) \<and>
   scale (column_vector [5, 7 :: int]) 1 = column_vector [5, 7]"
  by code_simp

end
